theory Spec2Isabelle
  imports Complex_Main "HOL-Library.Word" "HOL-Library.Multiset"
begin

section \<open>Realms and realm re-selection (shared/comms sagas)\<close>

text \<open>
  A realm as the sagas and the address resolver read it: the protocol tag, the hostname
  and the server name. All three are JavaScript strings.
\<close>

record Realm =
  protocol :: string
  hostname :: string
  serverName :: string

text \<open>
  \<^verbatim>\<open>function sameRealm(realm1, realm2) {
    return realm1.serverName === realm2.serverName && realm2.hostname === realm2.hostname }\<close>
  The second conjunct reads \<open>realm2\<close> on both sides, as the source does.
\<close>

definition sameRealm :: "Realm \<Rightarrow> Realm \<Rightarrow> bool" where
  "sameRealm realm1 realm2 \<longleftrightarrow>
     serverName realm1 = serverName realm2 \<and> hostname realm2 = hostname realm2"

datatype SagaEffect = SetCatalystRealm Realm | Info string

text \<open>
  \<open>changeRealm\<close>: the saga reads the current realm from the store (\<open>None\<close> when no realm
  is set), calls \<open>selectRealm\<close> (its result is the argument \<open>otherRealm\<close>) and puts
  \<open>setCatalystRealm\<close> when \<open>sameRealm\<close> says the realms differ. The result is the list of
  effects of the run: log lines and dispatched actions. \<open>realmToConnectionString\<close>, which
  only words the log lines, is not among the sources and is a parameter.
\<close>

definition changeRealm :: "(Realm \<Rightarrow> string) \<Rightarrow> Realm option \<Rightarrow> Realm \<Rightarrow> SagaEffect list" where
  "changeRealm realmToConnectionString currentRealm otherRealm =
     (case currentRealm of
        None \<Rightarrow> [Info ''No realm set, wait for actual DAO initialization'']
      | Some current \<Rightarrow>
          if \<not> sameRealm current otherRealm
          then [Info (''Changing realm from '' @ realmToConnectionString current
                       @ '' to '' @ realmToConnectionString otherRealm),
                SetCatalystRealm otherRealm]
          else [Info (''Realm already set '' @ realmToConnectionString current)])"


section \<open>The BFF address resolver\<close>



















section \<open>The close-peers scoring link\<close>

type_synonym Parcel = "int \<times> int"

text \<open>
  Modelled from the spec: the type \<open>Candidate\<close> and the helper \<open>usersParcels\<close> of the
  selection utils are not among the sources. The spec (3): a candidate is a realm
  advertisement, with the realm's identity, the reported population and optional per-user
  positional records. The helper \<open>usersParcels(candidate)\<close> reads those records; it is the
  field \<open>usersParcels\<close>, \<open>None\<close> where the candidate has none.
\<close>

record Candidate = Realm +
  usersCount :: nat
  usersParcels :: "Parcel list option"

record AlgorithmContext =
  picked :: "Candidate list"
  userParcel :: Parcel

record 'p ClosePeersScoreParameters =
  closePeersDistance :: int
  baseScore :: real
  latencyDeductionsParameters :: 'p

datatype AlgorithmLinkTypes = CLOSE_PEERS_SCORE

record AlgorithmLink =
  name :: AlgorithmLinkTypes
  pick :: "AlgorithmContext \<Rightarrow> Candidate option"

text \<open>
  Modelled from the spec: \<open>countParcelsCloseTo\<close> of comms/interface/utils is not among the
  sources. The spec (4.1): it counts how many of the reported positions lie within
  \<open>maxDistance\<close>, in grid (Chebyshev) distance, of the reference position; the empty list
  gives 0.
\<close>

definition countParcelsCloseTo :: "Parcel \<Rightarrow> Parcel list \<Rightarrow> int \<Rightarrow> nat" where
  "countParcelsCloseTo origin parcels distance =
     length (filter (\<lambda>p. max \<bar>fst p - fst origin\<bar> \<bar>snd p - snd origin\<bar> \<le> distance) parcels)"

text \<open>
  Modelled from the spec: \<open>selectFirstByScore\<close> of the selection utils is not among the
  sources. The spec (4.2): sort the candidates by adjusted score, descending; if the top
  candidate's score exceeds the second-place score by less than the margin, return no
  decision; otherwise the top candidate is the decision. With no candidate there is no
  decision; a single candidate has no runner-up and is the decision.
\<close>

definition selectFirstByScore ::
  "AlgorithmContext \<Rightarrow> (Candidate \<Rightarrow> real) \<Rightarrow> real \<Rightarrow> Candidate option" where
  "selectFirstByScore context score margin =
     (case sort_key (\<lambda>c. - score c) (picked context) of
        [] \<Rightarrow> None
      | [c] \<Rightarrow> Some c
      | c # d # rest \<Rightarrow> if score c - score d < margin then None else Some c)"

text \<open>
  \<open>closeUsersScore\<close>, the inner function of \<open>closePeersScoreLink\<close>:
  \<^verbatim>\<open>const parcels = usersParcels(candidate)
  if (parcels && parcels.length > 0) return baseScore + countParcelsCloseTo(...)
  else return 0\<close>
\<close>

definition closeUsersScore ::
  "'p ClosePeersScoreParameters \<Rightarrow> Parcel \<Rightarrow> Candidate \<Rightarrow> real" where
  "closeUsersScore params currentParcel candidate =
     (case usersParcels candidate of
        Some parcels \<Rightarrow>
          if length parcels > 0
          then baseScore params
                 + real (countParcelsCloseTo currentParcel parcels (closePeersDistance params))
          else 0
      | None \<Rightarrow> 0)"

text \<open>
  \<open>closePeersScoreLink\<close>. The shared score addon \<open>defaultScoreAddons\<close> (latency deductions)
  is not among the sources and the spec does not say what it computes, so it is the
  parameter \<open>defaultScoreAddons\<close>: it takes the latency parameters, the base score and a raw
  score function and gives the adjusted score function.
\<close>

definition closePeersScoreLink ::
  "('p \<Rightarrow> real \<Rightarrow> (Candidate \<Rightarrow> real) \<Rightarrow> Candidate \<Rightarrow> real)
     \<Rightarrow> 'p ClosePeersScoreParameters \<Rightarrow> AlgorithmLink" where
  "closePeersScoreLink defaultScoreAddons params =
     \<lparr> name = CLOSE_PEERS_SCORE,
       pick = (\<lambda>context.
         let score = defaultScoreAddons (latencyDeductionsParameters params) (baseScore params)
                       (closeUsersScore params (userParcel context))
         in selectFirstByScore context score 10) \<rparr>"


text \<open>
  Values to run the link on: an addon that deducts the same penalty from every score,
  and three candidates, one with three users within distance 3 of parcel (0, 0), one
  with a single user far away, one that reports no positions.
\<close>
definition demoAddons :: "real \<Rightarrow> real \<Rightarrow> (Candidate \<Rightarrow> real) \<Rightarrow> Candidate \<Rightarrow> real" where
  "demoAddons penalty base raw c = raw c - penalty"

definition demoParams :: "real ClosePeersScoreParameters" where
  "demoParams = \<lparr> closePeersDistance = 3, baseScore = 10, latencyDeductionsParameters = 1 \<rparr>"

definition crowded :: Candidate where
  "crowded = \<lparr> protocol = ''v3'', hostname = ''a.example.org'', serverName = ''crowded'',
               usersCount = 4, usersParcels = Some [(0, 0), (1, 1), (2, - 3), (50, 50)] \<rparr>"

definition distant :: Candidate where
  "distant = \<lparr> protocol = ''v3'', hostname = ''b.example.org'', serverName = ''distant'',
               usersCount = 1, usersParcels = Some [(40, 40)] \<rparr>"

definition silent :: Candidate where
  "silent = \<lparr> protocol = ''v3'', hostname = ''c.example.org'', serverName = ''silent'',
              usersCount = 0, usersParcels = None \<rparr>"


section \<open>Sockets, logs and the state shared by both transports\<close>

type_synonym bytes = "8 word list"

datatype ReadyState = WS_CONNECTING | WS_OPEN | WS_CLOSING | WS_CLOSED

text \<open>
  A WebSocket object as the transports use it: the ready state, which of the three
  handlers are attached (\<open>False\<close> is \<open>null\<close>), and the data sent on it, oldest first.
\<close>

record WebSocket =
  readyState :: ReadyState
  onmessage :: bool
  onerror :: bool
  onclose :: bool
  sent :: "bytes list"

text \<open>\<open>ws_send\<close>: the data are sent on the socket.\<close>

definition ws_send :: "bytes \<Rightarrow> WebSocket \<Rightarrow> WebSocket" where
  "ws_send data sock = sock\<lparr>sent := sent sock @ [data]\<rparr>"

text \<open>
  \<open>ws.close()\<close> starts the closing handshake: a socket that is not yet closed becomes
  closing; a closed one stays closed.
\<close>

definition ws_close :: "WebSocket \<Rightarrow> WebSocket" where
  "ws_close sock =
     sock\<lparr>readyState := (if readyState sock = WS_CLOSED then WS_CLOSED else WS_CLOSING)\<rparr>"

datatype Error = Error string | DeserializeError | InvalidStateError

text \<open>
  \<open>ws.send(data)\<close> as the WebSocket interface defines it: on a socket that is still
  connecting it throws \<open>InvalidStateError\<close>; on an open socket the data are sent; on a
  closing or closed socket the call returns and the data are dropped. The broker
  transport calls it only behind its check that the socket is open, where it is
  \<open>ws_send\<close>.
\<close>

definition webSocketSend :: "bytes \<Rightarrow> WebSocket \<Rightarrow> Error + WebSocket" where
  "webSocketSend data sock =
     (if readyState sock = WS_CONNECTING then Inl InvalidStateError
      else if readyState sock = WS_OPEN then Inr (ws_send data sock)
      else Inr sock)"

datatype LogEntry =
  LogError string | LogWarn string | LogInfo string | Log string | LogException Error

text \<open>
  What both transport classes hold: the logger's output (oldest first), the reference
  \<open>ws\<close> to the current socket (\<open>None\<close> is \<open>null\<close>), and the socket objects themselves,
  kept in a store under their handles, since the browser keeps delivering events to a
  socket the transport no longer refers to. \<open>new WebSocket\<close> takes the handle
  \<open>nextSocket\<close>.
\<close>

record Transport =
  logger :: "LogEntry list"
  ws :: "nat option"
  sockets :: "nat \<Rightarrow> WebSocket"
  nextSocket :: nat

text \<open>What the store holds under a handle for which no socket has been made.\<close>

definition detached :: WebSocket where
  "detached = \<lparr>readyState = WS_CLOSED, onmessage = False, onerror = False, onclose = False,
                sent = []\<rparr>"


section \<open>The broker transport (comms/v1/CliBrokerConnection)\<close>

datatype BrokerMessageType =
  WELCOME | CONNECT | TOPIC_FW | TOPIC_IDENTITY_FW | PING | OTHER_TYPE nat

record ConnectMessage =
  connectType :: BrokerMessageType
  toAlias :: nat
  fromAlias :: nat

text \<open>
  The generated protobuf code of \<open>./proto/broker\<close> is not among the sources; the three
  functions the transport uses are parameters. A deserialiser gives \<open>None\<close> where the
  generated code throws.
\<close>

record BrokerProto =
  coordinatorType :: "bytes \<Rightarrow> BrokerMessageType option"
  welcomeAlias :: "bytes \<Rightarrow> nat option"
  serializeConnect :: "ConnectMessage \<Rightarrow> bytes"

datatype StatCall = IncrementRecv nat | DispatchTopicDurationStart

datatype Future = Pending | Resolved | Rejected Error

text \<open>\<open>future.resolve()\<close>: a settled future stays as it is.\<close>

definition resolve :: "Future \<Rightarrow> Future" where
  "resolve f = (case f of Pending \<Rightarrow> Resolved | _ \<Rightarrow> f)"

record TransportMessage =
  topic :: string
  tmData :: bytes

text \<open>
  The fields of \<open>CliBrokerConnection\<close>. \<open>stats\<close> is \<open>None\<close> for \<open>null\<close> and otherwise the
  calls made on the stats object; \<open>onMessageObservable\<close> is the list of notifications
  delivered to the observers.
\<close>

record CliBrokerConnection = Transport +
  "alias" :: "nat option"
  stats :: "StatCall list option"
  onMessageObservable :: "TransportMessage list"
  connected :: Future

definition newCliBrokerConnection :: CliBrokerConnection where
  "newCliBrokerConnection =
     \<lparr> logger = [], ws = None, sockets = (\<lambda>h. detached), nextSocket = 0,
       alias = None, stats = None, onMessageObservable = [], connected = Pending \<rparr>"

definition statCall :: "StatCall \<Rightarrow> CliBrokerConnection \<Rightarrow> CliBrokerConnection" where
  "statCall c this = this\<lparr>stats := map_option (\<lambda>calls. calls @ [c]) (stats this)\<rparr>"

definition logged :: "LogEntry \<Rightarrow> 'a Transport_scheme \<Rightarrow> 'a Transport_scheme" where
  "logged e this = this\<lparr>logger := logger this @ [e]\<rparr>"

text \<open>
  \<^verbatim>\<open>if (!this.ws || this.ws.readyState !== WebSocket.OPEN) throw new Error(...)
  this.ws.send(msg)\<close>
\<close>

definition sendCoordinatorMessage ::
  "bytes \<Rightarrow> CliBrokerConnection \<Rightarrow> Error + CliBrokerConnection" where
  "sendCoordinatorMessage msg this =
     (case ws this of
        None \<Rightarrow> Inl (Error ''try to send answer to a non ready ws'')
      | Some h \<Rightarrow>
          if readyState (sockets this h) \<noteq> WS_OPEN
          then Inl (Error ''try to send answer to a non ready ws'')
          else Inr (this\<lparr>sockets := (sockets this)(h := ws_send msg (sockets this h))\<rparr>))"

definition broker_send :: "bytes \<Rightarrow> bool \<Rightarrow> CliBrokerConnection \<Rightarrow> Error + CliBrokerConnection" where
  "broker_send data reliable this = sendCoordinatorMessage data this"

definition broker_disconnect :: "CliBrokerConnection \<Rightarrow> CliBrokerConnection" where
  "broker_disconnect this =
     (case ws this of
        None \<Rightarrow> this
      | Some h \<Rightarrow>
          this\<lparr>sockets := (sockets this)
                  (h := ws_close ((sockets this h)\<lparr>onmessage := False, onerror := False,
                                                   onclose := False\<rparr>)),
               ws := None\<rparr>)"

text \<open>
  \<open>onWsMessage\<close> is an async function: the first component of the result is \<open>Inl e\<close>
  where its promise is rejected with \<open>e\<close> (an exception left the body), together with the
  state the body had reached.
\<close>

definition broker_onWsMessage ::
  "BrokerProto \<Rightarrow> bytes \<Rightarrow> CliBrokerConnection \<Rightarrow> (Error + unit) \<times> CliBrokerConnection" where
  "broker_onWsMessage P data this =
     (let msg = data; msgSize = length msg in
      case coordinatorType P data of
        None \<Rightarrow> (Inl DeserializeError, this)
      | Some WELCOME \<Rightarrow>
          (let this1 = statCall (IncrementRecv msgSize) this in
           case welcomeAlias P msg of
             None \<Rightarrow> (Inr (), logged (LogError ''cannot deserialize welcome client message'') this1)
           | Some a \<Rightarrow>
               (let this2 = logged (LogInfo ''my alias is'') (this1\<lparr>alias := Some a\<rparr>);
                    connectMessage = \<lparr>connectType = CONNECT, toAlias = 0, fromAlias = a\<rparr>
                in case sendCoordinatorMessage (serializeConnect P connectMessage) this2 of
                     Inl e \<Rightarrow> (Inl e, this2)
                   | Inr this3 \<Rightarrow> (Inr (), this3\<lparr>connected := resolve (connected this3)\<rparr>)))
      | Some msgType \<Rightarrow>
          if msgType = TOPIC_FW \<or> msgType = TOPIC_IDENTITY_FW \<or> msgType = PING
          then
            (let this1 = statCall DispatchTopicDurationStart this
             in (Inr (), this1\<lparr>onMessageObservable :=
                           onMessageObservable this1 @ [\<lparr>topic = ''LEGACY'', tmData = msg\<rparr>]\<rparr>))
          else
            (Inr (), logged (LogWarn ''Ignoring message type'')
                       (statCall (IncrementRecv msgSize) this)))"

text \<open>The two handlers \<open>connectWS\<close> attaches to a new socket.\<close>

definition broker_onerror :: "CliBrokerConnection \<Rightarrow> CliBrokerConnection" where
  "broker_onerror this = (logged (LogError ''socket error'') this)\<lparr>ws := None\<rparr>"

definition broker_onmessage ::
  "BrokerProto \<Rightarrow> bytes \<Rightarrow> CliBrokerConnection \<Rightarrow> CliBrokerConnection" where
  "broker_onmessage P data this =
     (case broker_onWsMessage P data this of
        (Inl err, this') \<Rightarrow> logged (LogException err) this'
      | (Inr _, this') \<Rightarrow> this')"

definition broker_connectWS :: "CliBrokerConnection \<Rightarrow> CliBrokerConnection" where
  "broker_connectWS this =
     (let this1 = (case ws this of
                     Some h \<Rightarrow> this\<lparr>sockets := (sockets this)(h := ws_close (sockets this h)),
                                     ws := None\<rparr>
                   | None \<Rightarrow> this);
          h = nextSocket this1
      in this1\<lparr>ws := Some h,
               sockets := (sockets this1)
                 (h := \<lparr>readyState = WS_CONNECTING, onmessage = True, onerror = True,
                        onclose = False, sent = []\<rparr>),
               nextSocket := Suc h\<rparr>)"

text \<open>
  \<open>connect\<close> up to its \<open>await this.connected\<close>; the caller's await completes when the
  future \<open>connected\<close> is resolved.
\<close>

definition broker_connect :: "CliBrokerConnection \<Rightarrow> CliBrokerConnection" where
  "broker_connect this = (if ws this = None then broker_connectWS this else this)"

text \<open>
  What can happen to a broker transport: its owner calls \<open>connect\<close>, \<open>send\<close> or
  \<open>disconnect\<close>, or the browser reports on a socket. A socket opens once, from
  connecting; a message is delivered on an open socket to the attached handler; an error
  goes to the attached error handler; the server can start the closing handshake on an
  open socket; a socket that closes is closed for good. A \<open>send\<close> that throws leaves the
  transport as it was.
\<close>

datatype BrokerEvent =
  Connect | Send bytes bool | Disconnect
| SocketOpened nat | SocketMessage nat bytes | SocketError nat
| SocketClosing nat | SocketClosed nat

definition socketOpened :: "nat \<Rightarrow> 'a Transport_scheme \<Rightarrow> 'a Transport_scheme" where
  "socketOpened h this =
     (if readyState (sockets this h) = WS_CONNECTING
      then this\<lparr>sockets := (sockets this)(h := (sockets this h)\<lparr>readyState := WS_OPEN\<rparr>)\<rparr>
      else this)"

definition socketClosing :: "nat \<Rightarrow> 'a Transport_scheme \<Rightarrow> 'a Transport_scheme" where
  "socketClosing h this =
     (if readyState (sockets this h) = WS_OPEN
      then this\<lparr>sockets := (sockets this)(h := (sockets this h)\<lparr>readyState := WS_CLOSING\<rparr>)\<rparr>
      else this)"

definition socketClosed :: "nat \<Rightarrow> 'a Transport_scheme \<Rightarrow> 'a Transport_scheme" where
  "socketClosed h this =
     this\<lparr>sockets := (sockets this)(h := (sockets this h)\<lparr>readyState := WS_CLOSED\<rparr>)\<rparr>"

fun broker_step :: "BrokerProto \<Rightarrow> BrokerEvent \<Rightarrow> CliBrokerConnection \<Rightarrow> CliBrokerConnection" where
  "broker_step P Connect this = broker_connect this"
| "broker_step P (Send data reliable) this =
     (case broker_send data reliable this of Inl e \<Rightarrow> this | Inr this' \<Rightarrow> this')"
| "broker_step P Disconnect this = broker_disconnect this"
| "broker_step P (SocketOpened h) this = socketOpened h this"
| "broker_step P (SocketMessage h data) this =
     (if readyState (sockets this h) = WS_OPEN \<and> onmessage (sockets this h)
      then broker_onmessage P data this else this)"
| "broker_step P (SocketError h) this =
     (if onerror (sockets this h) then broker_onerror this else this)"
| "broker_step P (SocketClosing h) this = socketClosing h this"
| "broker_step P (SocketClosed h) this = socketClosed h this"

fun broker_run :: "BrokerProto \<Rightarrow> BrokerEvent list \<Rightarrow> CliBrokerConnection \<Rightarrow> CliBrokerConnection" where
  "broker_run P [] this = this"
| "broker_run P (e # es) this = broker_run P es (broker_step P e this)"

text \<open>
  A small wire format to run the transport on: the first byte is the message type
  (1 welcome, 2 connect, 10 to 12 the forwarded kinds), a welcome carries the alias in
  its second byte, a connect message carries the two aliases.
\<close>

definition demoBroker :: BrokerProto where
  "demoBroker =
     \<lparr> coordinatorType = (\<lambda>data. case data of
           [] \<Rightarrow> None
         | t # _ \<Rightarrow> Some (if t = 1 then WELCOME else if t = 2 then CONNECT
                          else if t = 10 then TOPIC_FW else if t = 11 then TOPIC_IDENTITY_FW
                          else if t = 12 then PING else OTHER_TYPE (unat t))),
       welcomeAlias = (\<lambda>data. case data of [t, a] \<Rightarrow> Some (unat a) | _ \<Rightarrow> None),
       serializeConnect = (\<lambda>m. [2, of_nat (fromAlias m), of_nat (toAlias m)]) \<rparr>"

section \<open>The BFF transport (comms/v4/BFFConnection)\<close>

datatype BFFMessageType =
  UNKNOWN_MESSAGE_TYPE | HEARTBEAT | SUBSCRIPTION | OPEN | VALIDATION | VALIDATION_OK
| VALIDATION_FAILURE | TOPIC | ISLAND_CHANGES | UNLISTED_TYPE nat

type_synonym Position3D = "real \<times> real \<times> real"

type_synonym AuthIdentity = string

record BFFConfig =
  selfPosition :: "unit \<Rightarrow> Position3D option"
  getIdentity :: "unit \<Rightarrow> AuthIdentity"

record TopicData =
  peerId :: string
  tdData :: bytes

datatype Category = WORLD_POSITION

record WorldPositionData =
  category :: Category
  wpTime :: nat
  positionX :: real
  positionY :: real
  positionZ :: real

record HeartBeatMessage =
  hbType :: BFFMessageType
  hbTime :: nat
  hbData :: bytes

record ValidationMessage =
  vmType :: BFFMessageType
  encodedPayload :: string

text \<open>
  The generated protobuf code of \<open>./proto/bff_pb\<close> and \<open>./proto/comms_pb\<close> and the
  signing library are not among the sources; what the transport uses of them is a
  parameter. A deserialiser gives \<open>None\<close> where the generated code throws.
  \<open>headerType\<close> is \<open>MessageHeader.deserializeBinary(data).getType()\<close>, \<open>openPayload\<close> the
  payload of an \<open>OpenMessage\<close>, \<open>topicMessage\<close> the peer and body of a \<open>TopicMessage\<close>,
  \<open>islandConnStr\<close> the connection string of an \<open>IslandChangesMessage\<close>, and
  \<open>signPayload identity payload\<close> is \<open>JSON.stringify(Authenticator.signPayload(identity,
  payload))\<close>.
\<close>

record BFFProto =
  headerType :: "bytes \<Rightarrow> BFFMessageType option"
  openPayload :: "bytes \<Rightarrow> string option"
  topicMessage :: "bytes \<Rightarrow> TopicData option"
  islandConnStr :: "bytes \<Rightarrow> string option"
  serializeWorldPosition :: "WorldPositionData \<Rightarrow> bytes"
  serializeHeartBeat :: "HeartBeatMessage \<Rightarrow> bytes"
  serializeValidation :: "ValidationMessage \<Rightarrow> bytes"
  signPayload :: "AuthIdentity \<Rightarrow> string \<Rightarrow> string"

text \<open>The handle \<open>setInterval\<close> returns; a handle is never 0 or null, so it is truthy.\<close>

datatype TimerHandle = TimerHandle nat

text \<open>
  The fields of \<open>BFFConnection\<close>. An observable is what it has delivered to its
  observers: a count for the payload-free disconnect notifications, the payloads (oldest
  first) for the other two. \<open>timers\<close> are the interval timers that are running,
  \<open>nextTimer\<close> the next handle \<open>setInterval\<close> gives out, and \<open>awaitingConnect\<close> counts the
  calls of \<open>connect\<close> that are suspended at their \<open>await\<close>.
\<close>

record BFFConnection = Transport +
  onDisconnectObservable :: nat
  onTopicMessageObservable :: "TopicData list"
  onIslandChangeObservable :: "string list"
  heartBeatInterval :: "TimerHandle option"
  timers :: "TimerHandle set"
  nextTimer :: nat
  awaitingConnect :: nat

definition newBFFConnection :: BFFConnection where
  "newBFFConnection =
     \<lparr> logger = [], ws = None, sockets = (\<lambda>h. detached), nextSocket = 0,
       onDisconnectObservable = 0, onTopicMessageObservable = [], onIslandChangeObservable = [],
       heartBeatInterval = None, timers = {}, nextTimer = 0, awaitingConnect = 0 \<rparr>"

text \<open>
  \<open>send\<close> is async: \<open>Inl e\<close> is the promise rejected with \<open>e\<close>.
  \<^verbatim>\<open>if (!this.ws) throw new Error('This transport is closed')
  this.ws.send(data)\<close>
\<close>

definition bff_send :: "bytes \<Rightarrow> BFFConnection \<Rightarrow> Error + BFFConnection" where
  "bff_send data this =
     (case ws this of
        None \<Rightarrow> Inl (Error ''This transport is closed'')
      | Some h \<Rightarrow>
          (case webSocketSend data (sockets this h) of
             Inl e \<Rightarrow> Inl e
           | Inr sock \<Rightarrow> Inr (this\<lparr>sockets := (sockets this)(h := sock)\<rparr>)))"

definition sendHeartBeat ::
  "BFFProto \<Rightarrow> BFFConfig \<Rightarrow> nat \<Rightarrow> nat \<Rightarrow> BFFConnection \<Rightarrow> Error + BFFConnection" where
  "sendHeartBeat P config now1 now2 this =
     (case selfPosition config () of
        Some (x, y, z) \<Rightarrow>
          (let data = \<lparr>category = WORLD_POSITION, wpTime = now2,
                       positionX = x, positionY = y, positionZ = z\<rparr>;
               msg = \<lparr>hbType = HEARTBEAT, hbTime = now1,
                      hbData = serializeWorldPosition P data\<rparr>
           in bff_send (serializeHeartBeat P msg) this)
      | None \<Rightarrow> Inr this)"

definition bff_disconnect :: "BFFConnection \<Rightarrow> BFFConnection" where
  "bff_disconnect this =
     (let this1 = (case heartBeatInterval this of
                     Some t \<Rightarrow> this\<lparr>timers := timers this - {t}\<rparr>
                   | None \<Rightarrow> this)
      in case ws this1 of
           None \<Rightarrow> this1
         | Some h \<Rightarrow>
             this1\<lparr>sockets := (sockets this1)
                      (h := ws_close ((sockets this1 h)\<lparr>onmessage := False, onerror := False,
                                                        onclose := False\<rparr>)),
                   ws := None,
                   onDisconnectObservable := Suc (onDisconnectObservable this1)\<rparr>)"

text \<open>
  \<open>onWsMessage\<close>. The calls of \<open>send\<close> and \<open>disconnect\<close> in it are not awaited: a
  rejected \<open>send\<close> leaves the state as it is.
\<close>

definition bff_onWsMessage ::
  "BFFProto \<Rightarrow> BFFConfig \<Rightarrow> bytes \<Rightarrow> BFFConnection \<Rightarrow> BFFConnection" where
  "bff_onWsMessage P config data this =
     (case headerType P data of
        None \<Rightarrow> logged (LogError ''cannot deserialize message header'') this
      | Some UNKNOWN_MESSAGE_TYPE \<Rightarrow> logged (Log ''unsupported message'') this
      | Some OPEN \<Rightarrow>
          (let this1 = logged (Log ''open message received'') this in
           case openPayload P data of
             None \<Rightarrow> logged (LogError ''cannot process open message'') this1
           | Some payload \<Rightarrow>
               (let signedPayload = signPayload P (getIdentity config ()) payload;
                    validationMessage = \<lparr>vmType = VALIDATION, encodedPayload = signedPayload\<rparr>
                in case bff_send (serializeValidation P validationMessage) this1 of
                     Inl e \<Rightarrow> this1
                   | Inr this2 \<Rightarrow> this2))
      | Some VALIDATION_OK \<Rightarrow> logged (Log ''validation ok'') this
      | Some VALIDATION_FAILURE \<Rightarrow>
          bff_disconnect (logged (Log ''validation failure, disconnecting bff'') this)
      | Some TOPIC \<Rightarrow>
          (case topicMessage P data of
             None \<Rightarrow> logged (LogError ''cannot process topic message'') this
           | Some dataMessage \<Rightarrow>
               this\<lparr>onTopicMessageObservable := onTopicMessageObservable this @ [dataMessage]\<rparr>)
      | Some ISLAND_CHANGES \<Rightarrow>
          (case islandConnStr P data of
             None \<Rightarrow> logged (LogError ''cannot process topic message'') this
           | Some connStr \<Rightarrow>
               this\<lparr>onIslandChangeObservable := onIslandChangeObservable this @ [connStr]\<rparr>)
      | Some msgType \<Rightarrow> logged (Log ''ignoring msgType'') this)"

text \<open>
  \<open>connectWS\<close>: an open socket is kept; otherwise the old socket, if any, is closed and a
  new one is made, with its three handlers.
\<close>

definition bff_connectWS :: "BFFConnection \<Rightarrow> BFFConnection" where
  "bff_connectWS this =
     (if (case ws this of Some h \<Rightarrow> readyState (sockets this h) = WS_OPEN | None \<Rightarrow> False)
      then this
      else
        (let this1 = (case ws this of
                        Some h \<Rightarrow> this\<lparr>sockets := (sockets this)(h := ws_close (sockets this h)),
                                        ws := None\<rparr>
                      | None \<Rightarrow> this);
             h = nextSocket this1
         in this1\<lparr>ws := Some h,
                  sockets := (sockets this1)
                    (h := \<lparr>readyState = WS_CONNECTING, onmessage = True, onerror = True,
                           onclose = True, sent = []\<rparr>),
                  nextSocket := Suc h\<rparr>))"

definition bff_onerror :: "BFFConnection \<Rightarrow> BFFConnection" where
  "bff_onerror this = bff_disconnect (logged (LogError ''socket error'') this)"

definition bff_onclose :: "BFFConnection \<Rightarrow> BFFConnection" where
  "bff_onclose this = bff_disconnect this"

text \<open>
  \<open>connect\<close> in its two parts: up to the \<open>await\<close> (the promise of \<open>connectWS\<close> is
  already resolved, but the rest runs in a later microtask), and the rest, which starts
  the heartbeat timer.
\<close>

definition bff_connect_begin :: "BFFConnection \<Rightarrow> BFFConnection" where
  "bff_connect_begin this = (bff_connectWS this)\<lparr>awaitingConnect := Suc (awaitingConnect this)\<rparr>"

definition bff_connect_resume :: "BFFConnection \<Rightarrow> BFFConnection" where
  "bff_connect_resume this =
     logged (Log ''Connected'')
       (this\<lparr>heartBeatInterval := Some (TimerHandle (nextTimer this)),
             timers := insert (TimerHandle (nextTimer this)) (timers this),
             nextTimer := Suc (nextTimer this),
             awaitingConnect := awaitingConnect this - 1\<rparr>)"

definition bff_connect :: "BFFConnection \<Rightarrow> BFFConnection" where
  "bff_connect this = bff_connect_resume (bff_connect_begin this)"

text \<open>
  What can happen to a BFF transport: its owner calls \<open>connect\<close>, \<open>send\<close> or
  \<open>disconnect\<close>; a suspended \<open>connect\<close> resumes; a running heartbeat timer fires (the
  event carries what the position collaborator and the clock answer then); or the browser
  reports on a socket as for the broker transport, a close being reported to the attached
  close handler. A rejected \<open>send\<close> or heartbeat leaves the transport as it was.
\<close>

datatype BFFEvent =
  BffConnect | BffConnectResumed | BffSend bytes | BffDisconnect
| BffHeartBeat TimerHandle "Position3D option" nat nat
| BffSocketOpened nat | BffSocketMessage nat bytes | BffSocketError nat
| BffSocketClosing nat | BffSocketClosed nat

fun bff_step :: "BFFProto \<Rightarrow> BFFConfig \<Rightarrow> BFFEvent \<Rightarrow> BFFConnection \<Rightarrow> BFFConnection" where
  "bff_step P config BffConnect this = bff_connect_begin this"
| "bff_step P config BffConnectResumed this =
     (if awaitingConnect this > 0 then bff_connect_resume this else this)"
| "bff_step P config (BffSend data) this =
     (case bff_send data this of Inl e \<Rightarrow> this | Inr this' \<Rightarrow> this')"
| "bff_step P config BffDisconnect this = bff_disconnect this"
| "bff_step P config (BffHeartBeat t position now1 now2) this =
     (if t \<in> timers this
      then (case sendHeartBeat P (config\<lparr>selfPosition := (\<lambda>u. position)\<rparr>) now1 now2 this of
              Inl e \<Rightarrow> this | Inr this' \<Rightarrow> this')
      else this)"
| "bff_step P config (BffSocketOpened h) this = socketOpened h this"
| "bff_step P config (BffSocketMessage h data) this =
     (if readyState (sockets this h) = WS_OPEN \<and> onmessage (sockets this h)
      then bff_onWsMessage P config data this else this)"
| "bff_step P config (BffSocketError h) this =
     (if onerror (sockets this h) then bff_onerror this else this)"
| "bff_step P config (BffSocketClosing h) this = socketClosing h this"
| "bff_step P config (BffSocketClosed h) this =
     (if onclose (sockets this h) then bff_onclose (socketClosed h this)
      else socketClosed h this)"

fun bff_run :: "BFFProto \<Rightarrow> BFFConfig \<Rightarrow> BFFEvent list \<Rightarrow> BFFConnection \<Rightarrow> BFFConnection" where
  "bff_run P config [] this = this"
| "bff_run P config (e # es) this = bff_run P config es (bff_step P config e this)"

text \<open>
  A small wire format to run the transport on: the first byte is the message type
  (0 unknown, 3 open, 5 and 6 the two validation answers, 7 topic, 8 island changes); the
  bodies are empty. Outbound messages are the type byte alone, a heartbeat followed by its
  data.
\<close>

definition demoBff :: BFFProto where
  "demoBff =
     \<lparr> headerType = (\<lambda>data. case data of
           [] \<Rightarrow> None
         | t # _ \<Rightarrow> Some (if t = 0 then UNKNOWN_MESSAGE_TYPE else if t = 3 then OPEN
                          else if t = 5 then VALIDATION_OK else if t = 6 then VALIDATION_FAILURE
                          else if t = 7 then TOPIC else if t = 8 then ISLAND_CHANGES
                          else UNLISTED_TYPE (unat t))),
       openPayload = (\<lambda>data. case data of [t] \<Rightarrow> None | _ \<Rightarrow> Some ''challenge''),
       topicMessage = (\<lambda>data. case data of [t] \<Rightarrow> None
                               | _ \<Rightarrow> Some \<lparr>peerId = ''peer'', tdData = drop 1 data\<rparr>),
       islandConnStr = (\<lambda>data. case data of [t] \<Rightarrow> None | _ \<Rightarrow> Some ''island''),
       serializeWorldPosition = (\<lambda>d. [9]),
       serializeHeartBeat = (\<lambda>m. 1 # hbData m),
       serializeValidation = (\<lambda>m. [4]),
       signPayload = (\<lambda>identity payload. identity @ payload) \<rparr>"

text \<open>
  A frame is malformed when its header does not decode, or when the body that
  \<open>onWsMessage\<close> decodes for the frame's type does not.
\<close>

definition malformedFrame :: "BFFProto \<Rightarrow> bytes \<Rightarrow> bool" where
  "malformedFrame P data \<longleftrightarrow>
     headerType P data = None
     \<or> (headerType P data = Some OPEN \<and> openPayload P data = None)
     \<or> (headerType P data = Some TOPIC \<and> topicMessage P data = None)
     \<or> (headerType P data = Some ISLAND_CHANGES \<and> islandConnStr P data = None)"

definition demoConfig :: BFFConfig where
  "demoConfig = \<lparr> selfPosition = (\<lambda>u. Some (1, 2, 3)), getIdentity = (\<lambda>u. ''me'') \<rparr>"

definition bff_inv :: "BFFConnection \<Rightarrow> bool" where
  "bff_inv this \<longleftrightarrow>
     (\<forall>h. ws this = Some h \<longrightarrow>
        onmessage (sockets this h) \<and> onerror (sockets this h) \<and> onclose (sockets this h)
        \<and> readyState (sockets this h) \<noteq> WS_CLOSED)
   \<and> (\<forall>h. onmessage (sockets this h)
          \<and> (readyState (sockets this h) = WS_CONNECTING \<or> readyState (sockets this h) = WS_OPEN)
        \<longrightarrow> ws this = Some h)"


section \<open>Realm equality in re-selection\<close>

lemma sameRealm_iff_serverName: "sameRealm r1 r2 \<longleftrightarrow> serverName r1 = serverName r2"
  by (simp add: sameRealm_def)

text \<open>
  Claim C1. The claim: \<open>sameRealm\<close> is true exactly when the two realms agree on server
  name and on hostname, and when it is true no \<open>setCatalystRealm\<close> is put. The code
  compares the second realm's hostname with itself, so it decides on the server names
  alone: the two realms below have one server name and different hostnames, \<open>sameRealm\<close>
  holds for them, and \<open>changeRealm\<close> puts no \<open>setCatalystRealm\<close>.
\<close>

theorem sameRealm_ignores_hostname:
  "sameRealm \<lparr>protocol = ''v4'', hostname = ''a.example.org'', serverName = ''fenrir''\<rparr>
             \<lparr>protocol = ''v4'', hostname = ''b.example.org'', serverName = ''fenrir''\<rparr>
   \<and> hostname \<lparr>protocol = ''v4'', hostname = ''a.example.org'', serverName = ''fenrir''\<rparr>
       \<noteq> hostname \<lparr>protocol = ''v4'', hostname = ''b.example.org'', serverName = ''fenrir''\<rparr>
   \<and> changeRealm hostname
        (Some \<lparr>protocol = ''v4'', hostname = ''a.example.org'', serverName = ''fenrir''\<rparr>)
        \<lparr>protocol = ''v4'', hostname = ''b.example.org'', serverName = ''fenrir''\<rparr>
       = [Info ''Realm already set a.example.org'']"
  by (simp add: sameRealm_def changeRealm_def)


section \<open>The address resolver\<close>























section \<open>The scoring link\<close>

lemma selectFirstByScore_Some_iff:
  assumes "0 < margin"
  shows "selectFirstByScore context score margin = Some w \<longleftrightarrow>
     w \<in> set (picked context) \<and> (\<forall>d \<in># mset (picked context) - {#w#}. score d + margin \<le> score w)"
proof -
  define srt where "srt = sort_key (\<lambda>c. - score c) (picked context)"
  have ms: "mset srt = mset (picked context)" by (simp add: srt_def)
  have st: "set srt = set (picked context)" by (simp add: srt_def)
  have so: "sorted (map (\<lambda>c. - score c) srt)" by (simp add: srt_def)
  have sel: "selectFirstByScore context score margin =
     (case srt of [] \<Rightarrow> None | [c] \<Rightarrow> Some c
      | c # d # rest \<Rightarrow> if score c - score d < margin then None else Some c)"
    by (simp add: selectFirstByScore_def srt_def)
  show ?thesis
  proof (cases srt)
    case Nil
    then show ?thesis using sel st by auto
  next
    case (Cons c tl)
    note c = Cons
    have rest_le: "\<forall>x \<in> set tl. score x \<le> score c" using so c by auto
    have msr: "mset (picked context) - {#c#} = mset tl" using ms c by (metis add_mset_remove_trivial mset.simps(2))
    show ?thesis
    proof (cases tl)
      case Nil
      have one: "mset (picked context) = {#c#}" using ms c Nil by simp
      have lhs: "selectFirstByScore context score margin = Some c" using sel c Nil by simp
      have "set (picked context) = {c}" using st c Nil by simp
      moreover have "mset (picked context) - {#c#} = {#}" using one by simp
      ultimately have "(w \<in> set (picked context) \<and>
          (\<forall>d \<in># mset (picked context) - {#w#}. score d + margin \<le> score w)) \<longleftrightarrow> w = c"
        by auto
      then show ?thesis using lhs by auto
    next
      case (Cons d rest)
      have d_max: "\<forall>x \<in> set tl. score x \<le> score d" using so c Cons by auto
      show ?thesis
      proof
        assume "selectFirstByScore context score margin = Some w"
        then have wc: "w = c" and gap: "\<not> score c - score d < margin"
          using sel c Cons by (auto split: if_splits)
        have "w \<in> set (picked context)" using wc st c by auto
        moreover have "\<forall>x \<in># mset (picked context) - {#w#}. score x + margin \<le> score w"
          using msr wc d_max gap by fastforce
        ultimately show "w \<in> set (picked context) \<and> (\<forall>d \<in># mset (picked context) - {#w#}. score d + margin \<le> score w)"
          by simp
      next
        assume a: "w \<in> set (picked context) \<and> (\<forall>d \<in># mset (picked context) - {#w#}. score d + margin \<le> score w)"
        have "w = c"
        proof (rule ccontr)
          assume "w \<noteq> c"
          moreover have "c \<in># mset (picked context)"
            using st c by (metis list.set_intros(1) set_mset_mset)
          ultimately have "c \<in># mset (picked context) - {#w#}"
            by (simp add: in_diff_count)
          then have "score c + margin \<le> score w" using a by blast
          moreover have "w \<in> set tl" using a st c \<open>w \<noteq> c\<close> by auto
          ultimately show False using rest_le assms by fastforce
        qed
        moreover have "d \<in># mset (picked context) - {#c#}" using msr Cons by simp
        ultimately have "score d + margin \<le> score c" using a by blast
        then show "selectFirstByScore context score margin = Some w"
          using sel c Cons \<open>w = c\<close> by simp
      qed
    qed
  qed
qed

text \<open>
  Claim C7. The raw score of a candidate with at least one known user position is the
  base score plus \<open>countParcelsCloseTo\<close> of the user's parcel, the candidate's positions
  and the configured distance; a candidate with no known position scores 0. With the
  score addon applied to that raw score, the link picks a candidate exactly when that
  candidate's adjusted score is at least 10 above the adjusted score of every other
  candidate, that is above the runner-up's; when no candidate is that far ahead, the
  link returns no decision.
\<close>

theorem closePeersScoreLink_scores_and_margin:
  "(\<forall>parcels. usersParcels candidate = Some parcels \<and> parcels \<noteq> [] \<longrightarrow>
      closeUsersScore params currentParcel candidate
        = baseScore params
          + real (countParcelsCloseTo currentParcel parcels (closePeersDistance params)))
   \<and> (usersParcels candidate = None \<or> usersParcels candidate = Some [] \<longrightarrow>
        closeUsersScore params currentParcel candidate = 0)
   \<and> (let adjusted = defaultScoreAddons (latencyDeductionsParameters params) (baseScore params)
                        (closeUsersScore params (userParcel context))
      in (pick (closePeersScoreLink defaultScoreAddons params) context = Some winner \<longleftrightarrow>
            winner \<in> set (picked context)
            \<and> (\<forall>d \<in># mset (picked context) - {#winner#}. adjusted d + 10 \<le> adjusted winner))
       \<and> ((\<forall>c \<in> set (picked context).
              \<exists>d \<in># mset (picked context) - {#c#}. adjusted c - adjusted d < 10) \<longrightarrow>
            pick (closePeersScoreLink defaultScoreAddons params) context = None))"
proof -
  define adjusted where
    "adjusted = defaultScoreAddons (latencyDeductionsParameters params) (baseScore params)
                        (closeUsersScore params (userParcel context))"
  have p: "pick (closePeersScoreLink defaultScoreAddons params) context
             = selectFirstByScore context adjusted 10"
    by (simp add: closePeersScoreLink_def adjusted_def)
  have iff: "pick (closePeersScoreLink defaultScoreAddons params) context = Some w \<longleftrightarrow>
            w \<in> set (picked context)
            \<and> (\<forall>d \<in># mset (picked context) - {#w#}. adjusted d + 10 \<le> adjusted w)" for w
    unfolding p by (rule selectFirstByScore_Some_iff) simp
  have none: "pick (closePeersScoreLink defaultScoreAddons params) context = None"
    if "\<forall>c \<in> set (picked context). \<exists>d \<in># mset (picked context) - {#c#}. adjusted c - adjusted d < 10"
  proof (cases "pick (closePeersScoreLink defaultScoreAddons params) context")
    case None
    then show ?thesis .
  next
    case (Some w)
    then have "w \<in> set (picked context)"
      and "\<forall>d \<in># mset (picked context) - {#w#}. adjusted d + 10 \<le> adjusted w"
      using iff by auto
    then show ?thesis using that by fastforce
  qed
  have s1: "\<forall>parcels. usersParcels candidate = Some parcels \<and> parcels \<noteq> [] \<longrightarrow>
      closeUsersScore params currentParcel candidate
        = baseScore params
          + real (countParcelsCloseTo currentParcel parcels (closePeersDistance params))"
    by (simp add: closeUsersScore_def)
  have s2: "usersParcels candidate = None \<or> usersParcels candidate = Some [] \<longrightarrow>
        closeUsersScore params currentParcel candidate = 0"
    by (auto simp: closeUsersScore_def)
  show ?thesis
    unfolding Let_def adjusted_def [symmetric] using s1 s2 iff none by blast
qed

lemma demo_scores:
  "closeUsersScore demoParams (0, 0) crowded = 13"
  "closeUsersScore demoParams (0, 0) distant = 10"
  "closeUsersScore demoParams (0, 0) silent = 0"
  by (simp_all add: closeUsersScore_def demoParams_def crowded_def distant_def silent_def
      countParcelsCloseTo_def)

theorem closePeersScoreLink_scores_and_margin_witness:
  "closeUsersScore demoParams (0, 0) crowded = 10 + real (countParcelsCloseTo (0, 0) [(0, 0), (1, 1), (2, - 3), (50, 50)] 3)
   \<and> closeUsersScore demoParams (0, 0) silent = 0
   \<and> pick (closePeersScoreLink demoAddons demoParams) \<lparr>picked = [silent, crowded], userParcel = (0, 0)\<rparr>
       = Some crowded
   \<and> pick (closePeersScoreLink demoAddons demoParams) \<lparr>picked = [distant, crowded], userParcel = (0, 0)\<rparr>
       = None"
proof -
  have ne: "silent \<noteq> crowded" "distant \<noteq> crowded"
    by (simp_all add: silent_def crowded_def distant_def)
  have u: "usersParcels crowded = Some [(0, 0), (1, 1), (2, - 3), (50, 50)]" "usersParcels silent = None"
    by (simp_all add: crowded_def silent_def)
  have pr: "baseScore demoParams = 10" "closePeersDistance demoParams = 3"
    "latencyDeductionsParameters demoParams = 1"
    by (simp_all add: demoParams_def)
  have a: "closeUsersScore demoParams (0, 0) crowded = 10 + real (countParcelsCloseTo (0, 0) [(0, 0), (1, 1), (2, - 3), (50, 50)] 3)"
    using closePeersScoreLink_scores_and_margin [of crowded demoParams "(0, 0)"] u pr by simp
  have b: "closeUsersScore demoParams (0, 0) silent = 0"
    using closePeersScoreLink_scores_and_margin [of silent demoParams "(0, 0)"] u by simp
  have m1: "mset [silent, crowded] - {#crowded#} = {#silent#}" using ne by simp
  have c: "pick (closePeersScoreLink demoAddons demoParams) \<lparr>picked = [silent, crowded], userParcel = (0, 0)\<rparr>
       = Some crowded"
    using closePeersScoreLink_scores_and_margin
      [of crowded demoParams "(0, 0)" demoAddons "\<lparr>picked = [silent, crowded], userParcel = (0, 0)\<rparr>" crowded]
      m1 demo_scores pr
    by (simp add: Let_def demoAddons_def)
  have m2: "mset [distant, crowded] - {#distant#} = {#crowded#}"
    "mset [distant, crowded] - {#crowded#} = {#distant#}" using ne by simp_all
  have d: "pick (closePeersScoreLink demoAddons demoParams) \<lparr>picked = [distant, crowded], userParcel = (0, 0)\<rparr>
       = None"
    using closePeersScoreLink_scores_and_margin
      [of crowded demoParams "(0, 0)" demoAddons "\<lparr>picked = [distant, crowded], userParcel = (0, 0)\<rparr>" crowded]
      m2 demo_scores pr
    by (simp add: Let_def demoAddons_def)
  show ?thesis using a b c d by simp
qed


section \<open>The broker transport: sending\<close>

lemmas broker_defs =
  newCliBrokerConnection_def broker_connect_def broker_connectWS_def socketOpened_def
  socketClosed_def socketClosing_def broker_onmessage_def broker_onWsMessage_def demoBroker_def
  sendCoordinatorMessage_def statCall_def logged_def resolve_def ws_send_def ws_close_def
  broker_onerror_def broker_disconnect_def broker_send_def detached_def

lemma sendCoordinatorMessage_Inr:
  "sendCoordinatorMessage msg this = Inr this' \<longleftrightarrow>
     (\<exists>h. ws this = Some h \<and> readyState (sockets this h) = WS_OPEN
        \<and> this' = this\<lparr>sockets := (sockets this)(h := ws_send msg (sockets this h))\<rparr>)"
  by (auto simp: sendCoordinatorMessage_def split: option.splits)

lemma sendCoordinatorMessage_Inl:
  "sendCoordinatorMessage msg this = Inl e \<longleftrightarrow>
     e = Error ''try to send answer to a non ready ws''
     \<and> (ws this = None \<or> (\<exists>h. ws this = Some h \<and> readyState (sockets this h) \<noteq> WS_OPEN))"
  by (auto simp: sendCoordinatorMessage_def split: option.splits)

text \<open>
  Claim C2, as amended. \<open>send\<close> throws the error "try to send answer to a non ready ws"
  exactly when the transport has no socket or its socket is not open; the alias plays no
  part. On an open socket the data are handed to the socket, whether or not an alias has
  been assigned.
\<close>

theorem broker_send_fails_iff_socket_not_open:
  "(broker_send data reliable this = Inl (Error ''try to send answer to a non ready ws'')
      \<longleftrightarrow> (ws this = None \<or> (\<exists>h. ws this = Some h \<and> readyState (sockets this h) \<noteq> WS_OPEN)))
   \<and> (\<forall>h. ws this = Some h \<and> readyState (sockets this h) = WS_OPEN \<longrightarrow>
         broker_send data reliable this
           = Inr (this\<lparr>sockets := (sockets this)(h := ws_send data (sockets this h))\<rparr>))"
  by (auto simp: broker_send_def sendCoordinatorMessage_def split: option.splits)

theorem broker_send_fails_iff_socket_not_open_witness:
  "broker_send [9] True newCliBrokerConnection = Inl (Error ''try to send answer to a non ready ws'')
   \<and> broker_send [9] True (broker_run demoBroker [Connect] newCliBrokerConnection)
       = Inl (Error ''try to send answer to a non ready ws'')
   \<and> broker_send [9] True (broker_run demoBroker [Connect, SocketOpened 0] newCliBrokerConnection)
       = Inr ((broker_run demoBroker [Connect, SocketOpened 0] newCliBrokerConnection)
               \<lparr>sockets := (sockets (broker_run demoBroker [Connect, SocketOpened 0] newCliBrokerConnection))
                   (0 := ws_send [9] (sockets (broker_run demoBroker [Connect, SocketOpened 0] newCliBrokerConnection) 0))\<rparr>)"
proof -
  have a: "ws newCliBrokerConnection = None" by (simp add: broker_defs)
  have b: "ws (broker_run demoBroker [Connect] newCliBrokerConnection) = Some 0
           \<and> readyState (sockets (broker_run demoBroker [Connect] newCliBrokerConnection) 0) \<noteq> WS_OPEN"
    by (simp add: broker_defs Let_def)
  have c: "ws (broker_run demoBroker [Connect, SocketOpened 0] newCliBrokerConnection) = Some 0
           \<and> readyState (sockets (broker_run demoBroker [Connect, SocketOpened 0] newCliBrokerConnection) 0) = WS_OPEN"
    by (simp add: broker_defs Let_def)
  show ?thesis
    using a b c
      broker_send_fails_iff_socket_not_open [of "[9]" True newCliBrokerConnection]
      broker_send_fails_iff_socket_not_open [of "[9]" True "broker_run demoBroker [Connect] newCliBrokerConnection"]
      broker_send_fails_iff_socket_not_open [of "[9]" True "broker_run demoBroker [Connect, SocketOpened 0] newCliBrokerConnection"]
    by blast
qed

text \<open>
  The claim as stated asks for an error whenever no alias is assigned. After \<open>connect\<close>
  and the socket's opening, before any WELCOME, no alias is assigned and the future is
  pending, and \<open>send\<close> hands the data to the socket.
\<close>

theorem broker_send_before_alias_counterexample:
  "alias (broker_run demoBroker [Connect, SocketOpened 0] newCliBrokerConnection) = None
   \<and> connected (broker_run demoBroker [Connect, SocketOpened 0] newCliBrokerConnection) = Pending
   \<and> (case broker_send [9] True (broker_run demoBroker [Connect, SocketOpened 0] newCliBrokerConnection) of
        Inl e \<Rightarrow> None
      | Inr this' \<Rightarrow> Some (sent (sockets this' 0))) = Some [[9]]"
  by (simp add: broker_defs Let_def)


section \<open>The broker transport: the connected future\<close>

lemma run_append: "broker_run P (es @ fs) this = broker_run P fs (broker_run P es this)"
  by (induction es arbitrary: this) auto

lemma connected_logged [simp]: "connected (logged e this) = connected this"
  by (simp add: logged_def)

lemma connected_statCall [simp]: "connected (statCall c this) = connected this"
  by (simp add: statCall_def)

lemma ws_logged [simp]: "ws (logged e this) = ws this"
  by (simp add: logged_def)

lemma ws_statCall [simp]: "ws (statCall c this) = ws this"
  by (simp add: statCall_def)

lemma sockets_logged [simp]: "sockets (logged e this) = sockets this"
  by (simp add: logged_def)

lemma sockets_statCall [simp]: "sockets (statCall c this) = sockets this"
  by (simp add: statCall_def)

text \<open>
  A message that settles the future is a WELCOME that was answered on an open socket.
\<close>

lemma onWsMessage_settles:
  assumes "connected this = Pending"
    and "connected (snd (broker_onWsMessage P d this)) \<noteq> Pending"
  shows "\<exists>a k. coordinatorType P d = Some WELCOME \<and> welcomeAlias P d = Some a
           \<and> ws this = Some k \<and> readyState (sockets this k) = WS_OPEN
           \<and> fst (broker_onWsMessage P d this) = Inr ()
           \<and> alias (snd (broker_onWsMessage P d this)) = Some a
           \<and> sent (sockets (snd (broker_onWsMessage P d this)) k)
               = sent (sockets this k)
                 @ [serializeConnect P \<lparr>connectType = CONNECT, toAlias = 0, fromAlias = a\<rparr>]
           \<and> connected (snd (broker_onWsMessage P d this)) = Resolved"
proof (cases "coordinatorType P d")
  case None
  then show ?thesis using assms by (simp add: broker_onWsMessage_def)
next
  case (Some t)
  show ?thesis
  proof (cases "t = WELCOME")
    case False
    then have "connected (snd (broker_onWsMessage P d this)) = connected this"
      using Some by (cases t) (simp_all add: broker_onWsMessage_def Let_def)
    then show ?thesis using assms by simp
  next
    case True
    note t = True
    show ?thesis
    proof (cases "welcomeAlias P d")
      case None
      then show ?thesis using assms Some t by (simp add: broker_onWsMessage_def Let_def)
    next
      case (Some a)
      note a = Some
      define this2 where
        "this2 = logged (LogInfo ''my alias is'') ((statCall (IncrementRecv (length d)) this)\<lparr>alias := Some a\<rparr>)"
      define m where "m = serializeConnect P \<lparr>connectType = CONNECT, toAlias = 0, fromAlias = a\<rparr>"
      have res: "broker_onWsMessage P d this =
          (case sendCoordinatorMessage m this2 of
             Inl e \<Rightarrow> (Inl e, this2)
           | Inr this3 \<Rightarrow> (Inr (), this3\<lparr>connected := resolve (connected this3)\<rparr>))"
        using \<open>coordinatorType P d = Some t\<close> t a
        unfolding this2_def m_def by (simp add: broker_onWsMessage_def Let_def)
      have c2: "connected this2 = Pending" "ws this2 = ws this" "sockets this2 = sockets this"
        "alias this2 = Some a"
        using assms(1) by (simp_all add: this2_def logged_def statCall_def)
      show ?thesis
      proof (cases "sendCoordinatorMessage m this2")
        case (Inl e)
        then show ?thesis using res assms c2 by simp
      next
        case (Inr this3)
        then obtain k where k: "ws this2 = Some k" "readyState (sockets this2 k) = WS_OPEN"
          "this3 = this2\<lparr>sockets := (sockets this2)(k := ws_send m (sockets this2 k))\<rparr>"
          by (auto simp: sendCoordinatorMessage_Inr)
        have "snd (broker_onWsMessage P d this) = this3\<lparr>connected := resolve (connected this3)\<rparr>"
          and "fst (broker_onWsMessage P d this) = Inr ()"
          using res Inr by simp_all
        then show ?thesis
          using k c2 \<open>coordinatorType P d = Some t\<close> t a
          by (simp add: resolve_def ws_send_def m_def)
      qed
    qed
  qed
qed

lemma connected_broker_onmessage:
  "connected (broker_onmessage P d this) = connected (snd (broker_onWsMessage P d this))"
  by (cases "broker_onWsMessage P d this") (auto simp: broker_onmessage_def split: sum.splits)

lemma alias_broker_onmessage:
  "alias (broker_onmessage P d this) = alias (snd (broker_onWsMessage P d this))"
  by (cases "broker_onWsMessage P d this") (auto simp: broker_onmessage_def logged_def split: sum.splits)

lemma sockets_broker_onmessage:
  "sockets (broker_onmessage P d this) = sockets (snd (broker_onWsMessage P d this))"
  by (cases "broker_onWsMessage P d this") (auto simp: broker_onmessage_def split: sum.splits)

lemma connected_other_steps:
  "connected (broker_connect this) = connected this"
  "connected (broker_disconnect this) = connected this"
  "connected (broker_onerror this) = connected this"
  "connected (socketOpened h this) = connected this"
  "connected (socketClosed h this) = connected this"
  "connected (socketClosing h this) = connected this"
  "connected (case broker_send data r this of Inl e \<Rightarrow> this | Inr this' \<Rightarrow> this') = connected this"
  by (auto simp: broker_connect_def broker_connectWS_def broker_disconnect_def broker_onerror_def
      socketOpened_def socketClosed_def socketClosing_def broker_send_def
      sendCoordinatorMessage_def Let_def
      split: option.splits)

lemma step_settles:
  assumes "connected this = Pending"
    and "connected (broker_step P e this) \<noteq> Pending"
  shows "\<exists>h d a k. e = SocketMessage h d
           \<and> coordinatorType P d = Some WELCOME \<and> welcomeAlias P d = Some a
           \<and> ws this = Some k \<and> readyState (sockets this k) = WS_OPEN
           \<and> alias (broker_step P e this) = Some a
           \<and> sent (sockets (broker_step P e this) k)
               = sent (sockets this k)
                 @ [serializeConnect P \<lparr>connectType = CONNECT, toAlias = 0, fromAlias = a\<rparr>]
           \<and> connected (broker_step P e this) = Resolved"
proof (cases e)
  case (SocketMessage h d)
  then have fired: "readyState (sockets this h) = WS_OPEN \<and> onmessage (sockets this h)"
    using assms by (auto split: if_splits)
  then have eq: "broker_step P e this = broker_onmessage P d this"
    using SocketMessage by simp
  then have "connected (snd (broker_onWsMessage P d this)) \<noteq> Pending"
    using assms(2) by (simp add: connected_broker_onmessage)
  from onWsMessage_settles [OF assms(1) this]
  show ?thesis
    using SocketMessage eq
    by (auto simp: connected_broker_onmessage alias_broker_onmessage sockets_broker_onmessage)
qed (use assms in \<open>simp_all add: connected_other_steps split: if_splits\<close>)

text \<open>
  Claim C3. In every run of the broker transport from a new connection, if the future
  \<open>connected\<close> is resolved at the end, the run has a point up to which the future was
  pending and at which a message arrived whose type is WELCOME and which deserialises to
  an alias \<open>a\<close>; the transport held an open socket then; and the handling of that message
  set the alias to \<open>a\<close>, handed the CONNECT message with \<open>fromAlias = a\<close> and
  \<open>toAlias = 0\<close> to that socket as the latest message sent on it, and resolved the
  future. A socket that opens leaves the future as it is.
\<close>

theorem connected_resolves_only_after_welcome_and_connect:
  assumes "connected (broker_run P es newCliBrokerConnection) = Resolved"
  shows "(\<exists>pre h d post a k.
           es = pre @ SocketMessage h d # post
         \<and> coordinatorType P d = Some WELCOME \<and> welcomeAlias P d = Some a
         \<and> connected (broker_run P pre newCliBrokerConnection) = Pending
         \<and> ws (broker_run P pre newCliBrokerConnection) = Some k
         \<and> readyState (sockets (broker_run P pre newCliBrokerConnection) k) = WS_OPEN
         \<and> alias (broker_run P (pre @ [SocketMessage h d]) newCliBrokerConnection) = Some a
         \<and> sent (sockets (broker_run P (pre @ [SocketMessage h d]) newCliBrokerConnection) k)
             = sent (sockets (broker_run P pre newCliBrokerConnection) k)
               @ [serializeConnect P \<lparr>connectType = CONNECT, toAlias = 0, fromAlias = a\<rparr>]
         \<and> connected (broker_run P (pre @ [SocketMessage h d]) newCliBrokerConnection) = Resolved)
       \<and> connected (broker_step P (SocketOpened k') that) = connected that"
proof -
  have gen: "connected this = Pending \<Longrightarrow> connected (broker_run P es this) \<noteq> Pending \<Longrightarrow>
     \<exists>pre h d post a k.
           es = pre @ SocketMessage h d # post
         \<and> coordinatorType P d = Some WELCOME \<and> welcomeAlias P d = Some a
         \<and> connected (broker_run P pre this) = Pending
         \<and> ws (broker_run P pre this) = Some k
         \<and> readyState (sockets (broker_run P pre this) k) = WS_OPEN
         \<and> alias (broker_run P (pre @ [SocketMessage h d]) this) = Some a
         \<and> sent (sockets (broker_run P (pre @ [SocketMessage h d]) this) k)
             = sent (sockets (broker_run P pre this) k)
               @ [serializeConnect P \<lparr>connectType = CONNECT, toAlias = 0, fromAlias = a\<rparr>]
         \<and> connected (broker_run P (pre @ [SocketMessage h d]) this) = Resolved" for this
  proof (induction es arbitrary: this)
    case Nil
    then show ?case by simp
  next
    case (Cons e es)
    show ?case
    proof (cases "connected (broker_step P e this) = Pending")
      case True
      from Cons.IH [OF True] Cons.prems(2)
      obtain pre h d post a k where
        "es = pre @ SocketMessage h d # post"
        "coordinatorType P d = Some WELCOME" "welcomeAlias P d = Some a"
        "connected (broker_run P pre (broker_step P e this)) = Pending"
        "ws (broker_run P pre (broker_step P e this)) = Some k"
        "readyState (sockets (broker_run P pre (broker_step P e this)) k) = WS_OPEN"
        "alias (broker_run P (pre @ [SocketMessage h d]) (broker_step P e this)) = Some a"
        "sent (sockets (broker_run P (pre @ [SocketMessage h d]) (broker_step P e this)) k)
             = sent (sockets (broker_run P pre (broker_step P e this)) k)
               @ [serializeConnect P \<lparr>connectType = CONNECT, toAlias = 0, fromAlias = a\<rparr>]"
        "connected (broker_run P (pre @ [SocketMessage h d]) (broker_step P e this)) = Resolved"
        by auto
      then show ?thesis
        by (intro exI [of _ "e # pre"] exI [of _ h] exI [of _ d] exI [of _ post] exI [of _ a]
            exI [of _ k]) simp
    next
      case False
      from step_settles [OF Cons.prems(1) False]
      obtain h d a k where
        "e = SocketMessage h d" "coordinatorType P d = Some WELCOME" "welcomeAlias P d = Some a"
        "ws this = Some k" "readyState (sockets this k) = WS_OPEN"
        "alias (broker_step P e this) = Some a"
        "sent (sockets (broker_step P e this) k)
               = sent (sockets this k)
                 @ [serializeConnect P \<lparr>connectType = CONNECT, toAlias = 0, fromAlias = a\<rparr>]"
        "connected (broker_step P e this) = Resolved"
        by auto
      then show ?thesis using Cons.prems(1)
        by (intro exI [of _ "[]"] exI [of _ h] exI [of _ d] exI [of _ es] exI [of _ a]
            exI [of _ k]) simp
    qed
  qed
  have "connected newCliBrokerConnection = Pending" by (simp add: newCliBrokerConnection_def)
  from gen [OF this] assms show ?thesis by (simp add: connected_other_steps)
qed

theorem connected_resolves_only_after_welcome_and_connect_witness:
  "connected (broker_run demoBroker [Connect, SocketOpened 0, SocketMessage 0 [1, 7]]
                newCliBrokerConnection) = Resolved
   \<and> (\<exists>pre h d post a k.
           [Connect, SocketOpened 0, SocketMessage 0 [1, 7]] = pre @ SocketMessage h d # post
         \<and> coordinatorType demoBroker d = Some WELCOME \<and> welcomeAlias demoBroker d = Some a
         \<and> connected (broker_run demoBroker pre newCliBrokerConnection) = Pending
         \<and> ws (broker_run demoBroker pre newCliBrokerConnection) = Some k
         \<and> readyState (sockets (broker_run demoBroker pre newCliBrokerConnection) k) = WS_OPEN
         \<and> alias (broker_run demoBroker (pre @ [SocketMessage h d]) newCliBrokerConnection) = Some a
         \<and> sent (sockets (broker_run demoBroker (pre @ [SocketMessage h d]) newCliBrokerConnection) k)
             = sent (sockets (broker_run demoBroker pre newCliBrokerConnection) k)
               @ [serializeConnect demoBroker \<lparr>connectType = CONNECT, toAlias = 0, fromAlias = a\<rparr>]
         \<and> connected (broker_run demoBroker (pre @ [SocketMessage h d]) newCliBrokerConnection) = Resolved)"
proof -
  have r: "connected (broker_run demoBroker [Connect, SocketOpened 0, SocketMessage 0 [1, 7]]
                newCliBrokerConnection) = Resolved"
    by (simp add: broker_defs Let_def)
  from connected_resolves_only_after_welcome_and_connect [OF r] r show ?thesis by simp
qed

lemma step_connected_cases:
  "connected (broker_step P e this) = connected this \<or> (connected this = Pending \<and> connected (broker_step P e this) = Resolved)"
proof (cases "connected this = Pending")
  case True
  then show ?thesis using step_settles [of this P e] by auto
next
  case False
  have "connected (snd (broker_onWsMessage P d this)) = connected this" for d
    using False
    by (auto simp: broker_onWsMessage_def Let_def resolve_def sendCoordinatorMessage_def
        split: option.splits BrokerMessageType.splits sum.splits Future.splits)
  then show ?thesis
    by (cases e) (simp_all add: connected_other_steps connected_broker_onmessage)
qed

lemma run_never_rejected:
  "(\<forall>x. connected this \<noteq> Rejected x) \<Longrightarrow> connected (broker_run P es this) \<noteq> Rejected y"
proof (induction es arbitrary: this)
  case Nil
  then show ?case by simp
next
  case (Cons e es)
  have "\<forall>x. connected (broker_step P e this) \<noteq> Rejected x"
    using step_connected_cases [of P e this] Cons.prems by auto
  from Cons.IH [OF this] show ?case by simp
qed

lemma step_stays_pending:
  assumes "ws this = None" "connected this = Pending" "e \<noteq> Connect"
  shows "ws (broker_step P e this) = None \<and> connected (broker_step P e this) = Pending"
proof -
  have c: "connected (broker_step P e this) = Pending"
    using step_settles [of this P e] assms by auto
  have w: "ws (snd (broker_onWsMessage P d this)) = None" for d
    using assms(1)
    by (auto simp: broker_onWsMessage_def Let_def sendCoordinatorMessage_def
        split: option.splits BrokerMessageType.splits)
  have "ws (broker_onmessage P d this) = None" for d
    using w [of d] by (cases "broker_onWsMessage P d this") (auto simp: broker_onmessage_def split: sum.splits)
  then have "ws (broker_step P e this) = None"
    using assms
    by (cases e) (auto simp: broker_disconnect_def broker_onerror_def socketOpened_def
        socketClosed_def socketClosing_def broker_send_def sendCoordinatorMessage_def)
  then show ?thesis using c by simp
qed

lemma run_stays_pending:
  "ws this = None \<Longrightarrow> connected this = Pending \<Longrightarrow> Connect \<notin> set es \<Longrightarrow>
     ws (broker_run P es this) = None \<and> connected (broker_run P es this) = Pending"
proof (induction es arbitrary: this)
  case Nil
  then show ?case by simp
next
  case (Cons e es)
  have "e \<noteq> Connect" "Connect \<notin> set es" using Cons.prems(3) by auto
  from step_stays_pending [OF Cons.prems(1,2) this(1)] Cons.IH this(2)
  show ?case by simp
qed

text \<open>
  Claim C10, as amended. Neither the socket-error handler nor \<open>disconnect\<close> changes the
  future \<open>connected\<close>, and in no run from a new connection is the future ever rejected: no
  error reaches a caller awaiting \<open>connect\<close>. After the error handler or \<open>disconnect\<close>
  has run on a transport whose future is pending, the future stays pending through every
  further run in which \<open>connect\<close> is not called again.
\<close>

theorem broker_error_or_disconnect_leaves_connected_pending:
  "connected (broker_onerror this) = connected this
   \<and> connected (broker_disconnect this) = connected this
   \<and> (\<forall>x. connected (broker_run P es newCliBrokerConnection) \<noteq> Rejected x)
   \<and> (connected this = Pending \<and> Connect \<notin> set fs \<longrightarrow>
        connected (broker_run P fs (broker_onerror this)) = Pending
        \<and> connected (broker_run P fs (broker_disconnect this)) = Pending)"
proof -
  have n: "\<forall>x. connected newCliBrokerConnection \<noteq> Rejected x"
    by (simp add: newCliBrokerConnection_def)
  have e: "ws (broker_onerror this) = None" "ws (broker_disconnect this) = None"
    by (auto simp: broker_onerror_def broker_disconnect_def split: option.splits)
  show ?thesis
    using run_never_rejected [OF n] run_stays_pending [OF e(1)] run_stays_pending [OF e(2)]
    by (simp add: connected_other_steps)
qed

theorem broker_error_or_disconnect_leaves_connected_pending_witness:
  "connected (broker_run demoBroker [Connect] newCliBrokerConnection) = Pending
   \<and> Connect \<notin> set [SocketOpened 0, SocketMessage 0 [1, 7], Send [9] True, Disconnect]
   \<and> connected (broker_run demoBroker [SocketOpened 0, SocketMessage 0 [1, 7], Send [9] True, Disconnect]
        (broker_onerror (broker_run demoBroker [Connect] newCliBrokerConnection))) = Pending
   \<and> connected (broker_run demoBroker [SocketOpened 0, SocketMessage 0 [1, 7], Send [9] True, Disconnect]
        (broker_disconnect (broker_run demoBroker [Connect] newCliBrokerConnection))) = Pending"
proof -
  have p: "connected (broker_run demoBroker [Connect] newCliBrokerConnection) = Pending"
    by (simp add: broker_defs Let_def)
  have c: "Connect \<notin> set [SocketOpened 0, SocketMessage 0 [1, 7], Send [9] True, Disconnect]"
    by simp
  show ?thesis
    using p c broker_error_or_disconnect_leaves_connected_pending
      [of "broker_run demoBroker [Connect] newCliBrokerConnection" demoBroker "[]"
          "[SocketOpened 0, SocketMessage 0 [1, 7], Send [9] True, Disconnect]"]
    by blast
qed

text \<open>
  The claim as stated says the await never completes. The future belongs to the
  transport, not to the call: after a socket error, or a \<open>disconnect\<close>, before any
  WELCOME, a second call of \<open>connect\<close> opens a new socket, and the WELCOME answered on it
  resolves the future the first caller awaits.
\<close>

theorem broker_await_completes_after_reconnect_counterexample:
  "connected (broker_run demoBroker [Connect] newCliBrokerConnection) = Pending
   \<and> onerror (sockets (broker_run demoBroker [Connect] newCliBrokerConnection) 0)
   \<and> connected (broker_run demoBroker [Connect, SocketError 0] newCliBrokerConnection) = Pending
   \<and> connected (broker_run demoBroker
        [Connect, SocketError 0, Connect, SocketOpened 1, SocketMessage 1 [1, 7]]
        newCliBrokerConnection) = Resolved
   \<and> connected (broker_run demoBroker
        [Connect, Disconnect, Connect, SocketOpened 1, SocketMessage 1 [1, 7]]
        newCliBrokerConnection) = Resolved"
  by (simp add: broker_defs Let_def)


section \<open>The BFF transport: inbound frames and the heartbeat\<close>

lemmas bff_defs =
  newBFFConnection_def bff_connect_begin_def bff_connectWS_def bff_connect_resume_def
  socketOpened_def socketClosed_def socketClosing_def logged_def bff_disconnect_def
  bff_onerror_def bff_onclose_def bff_onWsMessage_def bff_send_def sendHeartBeat_def
  demoBff_def demoConfig_def ws_send_def webSocketSend_def ws_close_def detached_def

lemma bff_run_append:
  "bff_run P config (es @ fs) this = bff_run P config fs (bff_run P config es this)"
  by (induction es arbitrary: this) auto

text \<open>
  Claim C8. A frame whose header does not decode is logged and dropped: the transport
  afterwards is the transport before with one more log line. The same holds for an OPEN,
  TOPIC or ISLAND_CHANGES frame whose body does not decode. Delivering a malformed frame
  therefore changes nothing but the log: the socket reference, the sockets, the timers
  and the count of disconnect notifications are as before, so the connection is not
  closed and nothing is torn down.
\<close>

theorem bff_malformed_frame_dropped:
  "(headerType P data = None \<longrightarrow>
      bff_onWsMessage P config data this
        = this\<lparr>logger := logger this @ [LogError ''cannot deserialize message header'']\<rparr>)
   \<and> (headerType P data = Some OPEN \<and> openPayload P data = None \<longrightarrow>
      bff_onWsMessage P config data this
        = this\<lparr>logger := logger this @ [Log ''open message received'',
                                         LogError ''cannot process open message'']\<rparr>)
   \<and> (headerType P data = Some TOPIC \<and> topicMessage P data = None \<longrightarrow>
      bff_onWsMessage P config data this
        = this\<lparr>logger := logger this @ [LogError ''cannot process topic message'']\<rparr>)
   \<and> (headerType P data = Some ISLAND_CHANGES \<and> islandConnStr P data = None \<longrightarrow>
      bff_onWsMessage P config data this
        = this\<lparr>logger := logger this @ [LogError ''cannot process topic message'']\<rparr>)
   \<and> (malformedFrame P data \<longrightarrow>
        (bff_onWsMessage P config data this)\<lparr>logger := logger this\<rparr> = this
      \<and> (bff_step P config (BffSocketMessage h data) this)\<lparr>logger := logger this\<rparr> = this
      \<and> ws (bff_step P config (BffSocketMessage h data) this) = ws this
      \<and> sockets (bff_step P config (BffSocketMessage h data) this) = sockets this
      \<and> timers (bff_step P config (BffSocketMessage h data) this) = timers this
      \<and> onDisconnectObservable (bff_step P config (BffSocketMessage h data) this)
          = onDisconnectObservable this)"
proof -
  have a: "headerType P data = None \<Longrightarrow>
      bff_onWsMessage P config data this
        = this\<lparr>logger := logger this @ [LogError ''cannot deserialize message header'']\<rparr>"
    by (simp add: bff_onWsMessage_def logged_def)
  have b: "headerType P data = Some OPEN \<Longrightarrow> openPayload P data = None \<Longrightarrow>
      bff_onWsMessage P config data this
        = this\<lparr>logger := logger this @ [Log ''open message received'',
                                         LogError ''cannot process open message'']\<rparr>"
    by (simp add: bff_onWsMessage_def logged_def)
  have c: "headerType P data = Some TOPIC \<Longrightarrow> topicMessage P data = None \<Longrightarrow>
      bff_onWsMessage P config data this
        = this\<lparr>logger := logger this @ [LogError ''cannot process topic message'']\<rparr>"
    by (simp add: bff_onWsMessage_def logged_def)
  have d: "headerType P data = Some ISLAND_CHANGES \<Longrightarrow> islandConnStr P data = None \<Longrightarrow>
      bff_onWsMessage P config data this
        = this\<lparr>logger := logger this @ [LogError ''cannot process topic message'']\<rparr>"
    by (simp add: bff_onWsMessage_def logged_def)
  have m: "(bff_onWsMessage P config data this)\<lparr>logger := logger this\<rparr> = this"
    if "malformedFrame P data"
    using that a b c d unfolding malformedFrame_def by auto
  have s: "(bff_step P config (BffSocketMessage h data) this)\<lparr>logger := logger this\<rparr> = this"
    if "malformedFrame P data"
    using m [OF that] by simp
  have r: "ws x = ws this \<and> sockets x = sockets this \<and> timers x = timers this
        \<and> onDisconnectObservable x = onDisconnectObservable this"
    if "x\<lparr>logger := logger this\<rparr> = this" for x :: BFFConnection
  proof -
    have "ws (x\<lparr>logger := logger this\<rparr>) = ws x" "sockets (x\<lparr>logger := logger this\<rparr>) = sockets x"
      "timers (x\<lparr>logger := logger this\<rparr>) = timers x"
      "onDisconnectObservable (x\<lparr>logger := logger this\<rparr>) = onDisconnectObservable x"
      by simp_all
    then show ?thesis using that by simp
  qed
  show ?thesis using a b c d m s r [OF s] by blast
qed

theorem bff_malformed_frame_dropped_witness:
  "malformedFrame demoBff [] \<and> malformedFrame demoBff [3] \<and> malformedFrame demoBff [7]
   \<and> malformedFrame demoBff [8]
   \<and> bff_onWsMessage demoBff demoConfig [] newBFFConnection
       = newBFFConnection\<lparr>logger := logger newBFFConnection @ [LogError ''cannot deserialize message header'']\<rparr>
   \<and> bff_onWsMessage demoBff demoConfig [3] newBFFConnection
       = newBFFConnection\<lparr>logger := logger newBFFConnection @ [Log ''open message received'',
                                         LogError ''cannot process open message'']\<rparr>
   \<and> bff_onWsMessage demoBff demoConfig [7] newBFFConnection
       = newBFFConnection\<lparr>logger := logger newBFFConnection @ [LogError ''cannot process topic message'']\<rparr>
   \<and> bff_onWsMessage demoBff demoConfig [8] newBFFConnection
       = newBFFConnection\<lparr>logger := logger newBFFConnection @ [LogError ''cannot process topic message'']\<rparr>
   \<and> ws (bff_step demoBff demoConfig (BffSocketMessage 0 [7])
         (bff_run demoBff demoConfig [BffConnect, BffConnectResumed, BffSocketOpened 0]
            newBFFConnection))
       = ws (bff_run demoBff demoConfig [BffConnect, BffConnectResumed, BffSocketOpened 0]
            newBFFConnection)
   \<and> onDisconnectObservable (bff_step demoBff demoConfig (BffSocketMessage 0 [7])
         (bff_run demoBff demoConfig [BffConnect, BffConnectResumed, BffSocketOpened 0]
            newBFFConnection))
       = onDisconnectObservable
           (bff_run demoBff demoConfig [BffConnect, BffConnectResumed, BffSocketOpened 0]
              newBFFConnection)"
proof -
  have h: "headerType demoBff [] = None"
    "headerType demoBff [3] = Some OPEN \<and> openPayload demoBff [3] = None"
    "headerType demoBff [7] = Some TOPIC \<and> topicMessage demoBff [7] = None"
    "headerType demoBff [8] = Some ISLAND_CHANGES \<and> islandConnStr demoBff [8] = None"
    by (simp_all add: demoBff_def)
  have m: "malformedFrame demoBff []" "malformedFrame demoBff [3]" "malformedFrame demoBff [7]"
    "malformedFrame demoBff [8]"
    using h by (simp_all add: malformedFrame_def)
  define s0 where "s0 = bff_run demoBff demoConfig [BffConnect, BffConnectResumed, BffSocketOpened 0] newBFFConnection"
  have e1: "bff_onWsMessage demoBff demoConfig [] newBFFConnection
       = newBFFConnection\<lparr>logger := logger newBFFConnection @ [LogError ''cannot deserialize message header'']\<rparr>"
    using h(1) bff_malformed_frame_dropped [of demoBff "[]" demoConfig newBFFConnection 0]
    by (elim conjE) simp
  have e2: "bff_onWsMessage demoBff demoConfig [3] newBFFConnection
       = newBFFConnection\<lparr>logger := logger newBFFConnection @ [Log ''open message received'',
                                         LogError ''cannot process open message'']\<rparr>"
    using h(2) bff_malformed_frame_dropped [of demoBff "[3]" demoConfig newBFFConnection 0]
    by (elim conjE) simp
  have e3: "bff_onWsMessage demoBff demoConfig [7] newBFFConnection
       = newBFFConnection\<lparr>logger := logger newBFFConnection @ [LogError ''cannot process topic message'']\<rparr>"
    using h(3) bff_malformed_frame_dropped [of demoBff "[7]" demoConfig newBFFConnection 0]
    by (elim conjE) simp
  have e4: "bff_onWsMessage demoBff demoConfig [8] newBFFConnection
       = newBFFConnection\<lparr>logger := logger newBFFConnection @ [LogError ''cannot process topic message'']\<rparr>"
    using h(4) bff_malformed_frame_dropped [of demoBff "[8]" demoConfig newBFFConnection 0]
    by (elim conjE) simp
  have e5: "ws (bff_step demoBff demoConfig (BffSocketMessage 0 [7]) s0) = ws s0
     \<and> onDisconnectObservable (bff_step demoBff demoConfig (BffSocketMessage 0 [7]) s0)
         = onDisconnectObservable s0"
    using m(3) bff_malformed_frame_dropped [of demoBff "[7]" demoConfig s0 0]
    by (elim conjE) simp
  show ?thesis
    unfolding s0_def [symmetric] using m e1 e2 e3 e4 e5 by (intro conjI) simp_all
qed

lemma webSocketSend_open:
  "readyState sock = WS_OPEN \<Longrightarrow> webSocketSend data sock = Inr (ws_send data sock)"
  by (simp add: webSocketSend_def)

lemma bff_send_open:
  "ws this = Some h \<Longrightarrow> readyState (sockets this h) = WS_OPEN \<Longrightarrow>
     bff_send data this
       = Inr (this\<lparr>sockets := (sockets this)
                (h := (sockets this h)\<lparr>sent := sent (sockets this h) @ [data]\<rparr>)\<rparr>)"
  by (simp add: bff_send_def webSocketSend_def ws_send_def)

text \<open>
  Outside the open state a heartbeat with a known position sends nothing: without
  socket it fails with "This transport is closed", on a socket that is still connecting
  with \<open>InvalidStateError\<close>, and on a closing socket the data are dropped.
\<close>

lemma sendHeartBeat_not_open:
  assumes "selfPosition config () = Some p"
  shows "ws this = None \<Longrightarrow>
           sendHeartBeat P config now1 now2 this = Inl (Error ''This transport is closed'')"
    and "ws this = Some h \<Longrightarrow> readyState (sockets this h) = WS_CONNECTING \<Longrightarrow>
           sendHeartBeat P config now1 now2 this = Inl InvalidStateError"
    and "ws this = Some h \<Longrightarrow> readyState (sockets this h) = WS_CLOSING \<Longrightarrow>
           sendHeartBeat P config now1 now2 this = Inr this"
  using assms
  by (cases p; simp add: sendHeartBeat_def bff_send_def webSocketSend_def Let_def)+

text \<open>
  Claim C5. While the transport is open (it holds a socket that is open): whenever the
  heartbeat routine runs and the position collaborator reports no position, no outbound
  message is produced, the routine returning with the transport as it was (this half
  holds in every state); whenever a position is known, the serialised HEARTBEAT message
  whose data are the serialised world position with exactly these coordinates is sent on
  the socket. The same holds when the routine is run by its timer.
\<close>

theorem heartbeat_skips_without_position_sends_when_open:
  "(selfPosition config () = None \<longrightarrow> sendHeartBeat P config now1 now2 this = Inr this)
   \<and> (\<forall>x y z h. selfPosition config () = Some (x, y, z) \<and> ws this = Some h
          \<and> readyState (sockets this h) = WS_OPEN \<longrightarrow>
        sendHeartBeat P config now1 now2 this
          = Inr (this\<lparr>sockets := (sockets this)
                   (h := (sockets this h)
                      \<lparr>sent := sent (sockets this h) @
                         [serializeHeartBeat P
                            \<lparr>hbType = HEARTBEAT, hbTime = now1,
                             hbData = serializeWorldPosition P
                               \<lparr>category = WORLD_POSITION, wpTime = now2,
                                positionX = x, positionY = y, positionZ = z\<rparr>\<rparr>]\<rparr>)\<rparr>))
   \<and> bff_step P config (BffHeartBeat t None now1 now2) this = this
   \<and> (\<forall>x y z h. t \<in> timers this \<and> ws this = Some h
          \<and> readyState (sockets this h) = WS_OPEN \<longrightarrow>
        bff_step P config (BffHeartBeat t (Some (x, y, z)) now1 now2) this
          = this\<lparr>sockets := (sockets this)
                   (h := (sockets this h)
                      \<lparr>sent := sent (sockets this h) @
                         [serializeHeartBeat P
                            \<lparr>hbType = HEARTBEAT, hbTime = now1,
                             hbData = serializeWorldPosition P
                               \<lparr>category = WORLD_POSITION, wpTime = now2,
                                positionX = x, positionY = y, positionZ = z\<rparr>\<rparr>]\<rparr>)\<rparr>)"
proof -
  have skip: "sendHeartBeat P c now1 now2 this = Inr this" if "selfPosition c () = None" for c
    using that by (simp add: sendHeartBeat_def)
  have snd: "sendHeartBeat P c now1 now2 this
          = Inr (this\<lparr>sockets := (sockets this)
                   (h := (sockets this h)
                      \<lparr>sent := sent (sockets this h) @
                         [serializeHeartBeat P
                            \<lparr>hbType = HEARTBEAT, hbTime = now1,
                             hbData = serializeWorldPosition P
                               \<lparr>category = WORLD_POSITION, wpTime = now2,
                                positionX = x, positionY = y, positionZ = z\<rparr>\<rparr>]\<rparr>)\<rparr>)"
    if "selfPosition c () = Some (x, y, z)" "ws this = Some h"
      "readyState (sockets this h) = WS_OPEN" for c x y z h
    using that by (simp add: sendHeartBeat_def Let_def bff_send_open)
  have tick0: "bff_step P config (BffHeartBeat t None now1 now2) this = this"
    using skip [of "config\<lparr>selfPosition := (\<lambda>u. None)\<rparr>"] by simp
  have tick: "bff_step P config (BffHeartBeat t (Some (x, y, z)) now1 now2) this
          = this\<lparr>sockets := (sockets this)
                   (h := (sockets this h)
                      \<lparr>sent := sent (sockets this h) @
                         [serializeHeartBeat P
                            \<lparr>hbType = HEARTBEAT, hbTime = now1,
                             hbData = serializeWorldPosition P
                               \<lparr>category = WORLD_POSITION, wpTime = now2,
                                positionX = x, positionY = y, positionZ = z\<rparr>\<rparr>]\<rparr>)\<rparr>"
    if "t \<in> timers this" "ws this = Some h" "readyState (sockets this h) = WS_OPEN" for x y z h
    using that snd [of "config\<lparr>selfPosition := (\<lambda>u. Some (x, y, z))\<rparr>" x y z h] by simp
  show ?thesis
    using skip [of config] snd [of config] tick0 tick by (intro conjI impI allI) blast+
qed

theorem heartbeat_skips_without_position_sends_when_open_witness:
  "ws (bff_run demoBff demoConfig [BffConnect, BffConnectResumed, BffSocketOpened 0] newBFFConnection)
     = Some 0
   \<and> readyState (sockets (bff_run demoBff demoConfig
        [BffConnect, BffConnectResumed, BffSocketOpened 0] newBFFConnection) 0) = WS_OPEN
   \<and> TimerHandle 0 \<in> timers (bff_run demoBff demoConfig
        [BffConnect, BffConnectResumed, BffSocketOpened 0] newBFFConnection)
   \<and> sendHeartBeat demoBff (demoConfig\<lparr>selfPosition := (\<lambda>u. None)\<rparr>) 5 6
        (bff_run demoBff demoConfig [BffConnect, BffConnectResumed, BffSocketOpened 0] newBFFConnection)
     = Inr (bff_run demoBff demoConfig [BffConnect, BffConnectResumed, BffSocketOpened 0]
              newBFFConnection)
   \<and> sent (sockets (bff_step demoBff demoConfig (BffHeartBeat (TimerHandle 0) (Some (1, 2, 3)) 5 6)
        (bff_run demoBff demoConfig [BffConnect, BffConnectResumed, BffSocketOpened 0]
           newBFFConnection)) 0)
     = [serializeHeartBeat demoBff
          \<lparr>hbType = HEARTBEAT, hbTime = 5,
           hbData = serializeWorldPosition demoBff
             \<lparr>category = WORLD_POSITION, wpTime = 6,
              positionX = 1, positionY = 2, positionZ = 3\<rparr>\<rparr>]
   \<and> (case sendHeartBeat demoBff demoConfig 5 6
        (bff_run demoBff demoConfig [BffConnect, BffConnectResumed, BffSocketOpened 0]
           newBFFConnection) of
         Inl e \<Rightarrow> None | Inr this' \<Rightarrow> Some (sent (sockets this' 0)))
     = Some [serializeHeartBeat demoBff
          \<lparr>hbType = HEARTBEAT, hbTime = 5,
           hbData = serializeWorldPosition demoBff
             \<lparr>category = WORLD_POSITION, wpTime = 6,
              positionX = 1, positionY = 2, positionZ = 3\<rparr>\<rparr>]"
proof -
  define s0 where
    "s0 = bff_run demoBff demoConfig [BffConnect, BffConnectResumed, BffSocketOpened 0] newBFFConnection"
  have s0: "ws s0 = Some 0" "readyState (sockets s0 0) = WS_OPEN" "TimerHandle 0 \<in> timers s0"
    "sent (sockets s0 0) = []"
    by (simp_all add: s0_def bff_defs Let_def)
  have p: "selfPosition (demoConfig\<lparr>selfPosition := (\<lambda>u. None)\<rparr>) () = None"
    "selfPosition demoConfig () = Some (1, 2, 3)"
    by (simp_all add: demoConfig_def)
  note none = heartbeat_skips_without_position_sends_when_open
    [of "demoConfig\<lparr>selfPosition := (\<lambda>u. None)\<rparr>" demoBff 5 6 s0 "TimerHandle 0"]
  note some = heartbeat_skips_without_position_sends_when_open
    [of demoConfig demoBff 5 6 s0 "TimerHandle 0"]
  have a: "sendHeartBeat demoBff (demoConfig\<lparr>selfPosition := (\<lambda>u. None)\<rparr>) 5 6 s0 = Inr s0"
    by (rule none [THEN conjunct1, THEN mp]) (rule p(1))
  have b: "sendHeartBeat demoBff demoConfig 5 6 s0
      = Inr (s0\<lparr>sockets := (sockets s0)
                   (0 := (sockets s0 0)
                      \<lparr>sent := sent (sockets s0 0) @
                         [serializeHeartBeat demoBff
                            \<lparr>hbType = HEARTBEAT, hbTime = 5,
                             hbData = serializeWorldPosition demoBff
                               \<lparr>category = WORLD_POSITION, wpTime = 6,
                                positionX = 1, positionY = 2, positionZ = 3\<rparr>\<rparr>]\<rparr>)\<rparr>)"
    by (rule some [THEN conjunct2, THEN conjunct1, THEN spec, THEN spec, THEN spec, THEN spec,
          THEN mp]) (use p(2) s0 in simp)
  have c: "bff_step demoBff demoConfig (BffHeartBeat (TimerHandle 0) (Some (1, 2, 3)) 5 6) s0
      = s0\<lparr>sockets := (sockets s0)
                   (0 := (sockets s0 0)
                      \<lparr>sent := sent (sockets s0 0) @
                         [serializeHeartBeat demoBff
                            \<lparr>hbType = HEARTBEAT, hbTime = 5,
                             hbData = serializeWorldPosition demoBff
                               \<lparr>category = WORLD_POSITION, wpTime = 6,
                                positionX = 1, positionY = 2, positionZ = 3\<rparr>\<rparr>]\<rparr>)\<rparr>"
    by (rule some [THEN conjunct2, THEN conjunct2, THEN conjunct2, THEN spec, THEN spec,
          THEN spec, THEN spec, THEN mp]) (use s0 in simp)
  have c': "sent (sockets (bff_step demoBff demoConfig
                (BffHeartBeat (TimerHandle 0) (Some (1, 2, 3)) 5 6) s0) 0)
      = [serializeHeartBeat demoBff
          \<lparr>hbType = HEARTBEAT, hbTime = 5,
           hbData = serializeWorldPosition demoBff
             \<lparr>category = WORLD_POSITION, wpTime = 6,
              positionX = 1, positionY = 2, positionZ = 3\<rparr>\<rparr>]"
    unfolding c using s0(4) by simp
  have b': "(case sendHeartBeat demoBff demoConfig 5 6 s0 of
         Inl e \<Rightarrow> None | Inr this' \<Rightarrow> Some (sent (sockets this' 0)))
     = Some [serializeHeartBeat demoBff
          \<lparr>hbType = HEARTBEAT, hbTime = 5,
           hbData = serializeWorldPosition demoBff
             \<lparr>category = WORLD_POSITION, wpTime = 6,
              positionX = 1, positionY = 2, positionZ = 3\<rparr>\<rparr>]"
    unfolding b using s0(4) by simp
  show ?thesis
    unfolding s0_def [symmetric] by (intro conjI) (fact s0 a c' b')+
qed


section \<open>The BFF transport: which socket is held\<close>

text \<open>
  In every run the socket the transport holds has its three handlers attached and is
  not closed, and a socket that can still deliver a message (handler attached,
  connecting or open) is the one the transport holds.
\<close>

lemma bff_invI:
  assumes "\<And>h. ws s = Some h \<Longrightarrow>
             onmessage (sockets s h) \<and> onerror (sockets s h) \<and> onclose (sockets s h)
             \<and> readyState (sockets s h) \<noteq> WS_CLOSED"
    and "\<And>h. onmessage (sockets s h) \<Longrightarrow>
             readyState (sockets s h) = WS_CONNECTING \<or> readyState (sockets s h) = WS_OPEN \<Longrightarrow>
             ws s = Some h"
  shows "bff_inv s"
  unfolding bff_inv_def using assms by blast

lemma bff_inv_current:
  "bff_inv s \<Longrightarrow> ws s = Some h \<Longrightarrow>
     onmessage (sockets s h) \<and> onerror (sockets s h) \<and> onclose (sockets s h)
     \<and> readyState (sockets s h) \<noteq> WS_CLOSED"
  unfolding bff_inv_def by blast

lemma bff_inv_live:
  "bff_inv s \<Longrightarrow> onmessage (sockets s h) \<Longrightarrow>
     readyState (sockets s h) = WS_CONNECTING \<or> readyState (sockets s h) = WS_OPEN \<Longrightarrow>
     ws s = Some h"
  unfolding bff_inv_def by blast

lemma bff_inv_cong: "ws a = ws b \<Longrightarrow> sockets a = sockets b \<Longrightarrow> bff_inv a = bff_inv b"
  unfolding bff_inv_def by simp

lemma inv_new: "bff_inv newBFFConnection"
  by (rule bff_invI) (simp_all add: newBFFConnection_def detached_def)

lemma inv_logged: "bff_inv this \<Longrightarrow> bff_inv (logged e this)"
  using bff_inv_cong [of "logged e this" this] by (simp add: logged_def)

lemma ws_bff_disconnect: "ws (bff_disconnect this) = None"
  by (simp add: bff_disconnect_def Let_def split: option.splits)

lemma sockets_bff_disconnect:
  "sockets (bff_disconnect this) =
     (case ws this of
        None \<Rightarrow> sockets this
      | Some h \<Rightarrow> (sockets this)
          (h := ws_close ((sockets this h)\<lparr>onmessage := False, onerror := False,
                                           onclose := False\<rparr>)))"
  by (simp add: bff_disconnect_def Let_def split: option.splits)

lemma inv_disconnect:
  assumes "bff_inv this"
  shows "bff_inv (bff_disconnect this)"
proof (rule bff_invI)
  fix h
  assume "ws (bff_disconnect this) = Some h"
  then show "onmessage (sockets (bff_disconnect this) h) \<and> onerror (sockets (bff_disconnect this) h)
      \<and> onclose (sockets (bff_disconnect this) h)
      \<and> readyState (sockets (bff_disconnect this) h) \<noteq> WS_CLOSED"
    by (simp add: ws_bff_disconnect)
next
  fix h
  assume m: "onmessage (sockets (bff_disconnect this) h)"
    and r: "readyState (sockets (bff_disconnect this) h) = WS_CONNECTING
            \<or> readyState (sockets (bff_disconnect this) h) = WS_OPEN"
  show "ws (bff_disconnect this) = Some h"
  proof (cases "ws this")
    case None
    then have "sockets (bff_disconnect this) = sockets this" by (simp add: sockets_bff_disconnect)
    then have "ws this = Some h" using m r bff_inv_live [OF assms] by simp
    then show ?thesis using None by simp
  next
    case (Some k)
    have "h \<noteq> k" using m Some by (auto simp: sockets_bff_disconnect ws_close_def)
    then have "sockets (bff_disconnect this) h = sockets this h"
      using Some by (simp add: sockets_bff_disconnect)
    then have "ws this = Some h" using m r bff_inv_live [OF assms] by simp
    then show ?thesis using Some \<open>h \<noteq> k\<close> by simp
  qed
qed

lemma inv_send:
  assumes "bff_inv this" "bff_send data this = Inr this'"
  shows "bff_inv this'"
proof -
  obtain k sock where k: "ws this = Some k" "webSocketSend data (sockets this k) = Inr sock"
    "this' = this\<lparr>sockets := (sockets this)(k := sock)\<rparr>"
    using assms(2) by (auto simp: bff_send_def split: option.splits sum.splits)
  have sock: "onmessage sock = onmessage (sockets this k)" "onerror sock = onerror (sockets this k)"
    "onclose sock = onclose (sockets this k)" "readyState sock = readyState (sockets this k)"
    using k(2) by (auto simp: webSocketSend_def ws_send_def split: if_splits)
  have w: "ws this' = ws this" using k by simp
  have s: "onmessage (sockets this' h) = onmessage (sockets this h)"
    "onerror (sockets this' h) = onerror (sockets this h)"
    "onclose (sockets this' h) = onclose (sockets this h)"
    "readyState (sockets this' h) = readyState (sockets this h)" for h
    using k(3) sock by (cases "h = k"; simp)+
  show ?thesis
    using assms(1) unfolding bff_inv_def w s .
qed

lemma inv_new_socket:
  assumes "\<And>h. onmessage (sockets this h) \<Longrightarrow>
             readyState (sockets this h) = WS_CONNECTING \<or> readyState (sockets this h) = WS_OPEN \<Longrightarrow>
             False"
  shows "bff_inv (this\<lparr>ws := Some n,
            sockets := (sockets this)
              (n := \<lparr>readyState = WS_CONNECTING, onmessage = True, onerror = True,
                     onclose = True, sent = []\<rparr>),
            nextSocket := Suc n\<rparr>)"
proof (rule bff_invI)
  fix h
  assume "ws (this\<lparr>ws := Some n,
            sockets := (sockets this)
              (n := \<lparr>readyState = WS_CONNECTING, onmessage = True, onerror = True,
                     onclose = True, sent = []\<rparr>),
            nextSocket := Suc n\<rparr>) = Some h"
  then have "h = n" by simp
  then show "onmessage (sockets (this\<lparr>ws := Some n,
            sockets := (sockets this)
              (n := \<lparr>readyState = WS_CONNECTING, onmessage = True, onerror = True,
                     onclose = True, sent = []\<rparr>),
            nextSocket := Suc n\<rparr>) h) \<and> onerror (sockets (this\<lparr>ws := Some n,
            sockets := (sockets this)
              (n := \<lparr>readyState = WS_CONNECTING, onmessage = True, onerror = True,
                     onclose = True, sent = []\<rparr>),
            nextSocket := Suc n\<rparr>) h) \<and> onclose (sockets (this\<lparr>ws := Some n,
            sockets := (sockets this)
              (n := \<lparr>readyState = WS_CONNECTING, onmessage = True, onerror = True,
                     onclose = True, sent = []\<rparr>),
            nextSocket := Suc n\<rparr>) h) \<and> readyState (sockets (this\<lparr>ws := Some n,
            sockets := (sockets this)
              (n := \<lparr>readyState = WS_CONNECTING, onmessage = True, onerror = True,
                     onclose = True, sent = []\<rparr>),
            nextSocket := Suc n\<rparr>) h) \<noteq> WS_CLOSED"
    by simp
next
  fix h
  assume m: "onmessage (sockets (this\<lparr>ws := Some n,
            sockets := (sockets this)
              (n := \<lparr>readyState = WS_CONNECTING, onmessage = True, onerror = True,
                     onclose = True, sent = []\<rparr>),
            nextSocket := Suc n\<rparr>) h)"
    and r: "readyState (sockets (this\<lparr>ws := Some n,
            sockets := (sockets this)
              (n := \<lparr>readyState = WS_CONNECTING, onmessage = True, onerror = True,
                     onclose = True, sent = []\<rparr>),
            nextSocket := Suc n\<rparr>) h) = WS_CONNECTING \<or> readyState (sockets (this\<lparr>ws := Some n,
            sockets := (sockets this)
              (n := \<lparr>readyState = WS_CONNECTING, onmessage = True, onerror = True,
                     onclose = True, sent = []\<rparr>),
            nextSocket := Suc n\<rparr>) h) = WS_OPEN"
  have "h = n"
  proof (rule ccontr)
    assume "h \<noteq> n"
    then show False using m r assms [of h] by simp
  qed
  then show "ws (this\<lparr>ws := Some n,
            sockets := (sockets this)
              (n := \<lparr>readyState = WS_CONNECTING, onmessage = True, onerror = True,
                     onclose = True, sent = []\<rparr>),
            nextSocket := Suc n\<rparr>) = Some h"
    by simp
qed

lemma inv_connectWS:
  assumes "bff_inv this"
  shows "bff_inv (bff_connectWS this)"
proof (cases "ws this")
  case None
  have "\<And>h. onmessage (sockets this h) \<Longrightarrow>
         readyState (sockets this h) = WS_CONNECTING \<or> readyState (sockets this h) = WS_OPEN \<Longrightarrow>
         False"
    using bff_inv_live [OF assms] None by simp
  from inv_new_socket [OF this, where n = "nextSocket this"]
  show ?thesis using None by (simp add: bff_connectWS_def Let_def)
next
  case (Some k)
  show ?thesis
  proof (cases "readyState (sockets this k) = WS_OPEN")
    case True
    then show ?thesis using Some assms by (simp add: bff_connectWS_def)
  next
    case False
    define this1 where
      "this1 = this\<lparr>sockets := (sockets this)(k := ws_close (sockets this k)), ws := None\<rparr>"
    have dead: "False" if "onmessage (sockets this1 h)"
      "readyState (sockets this1 h) = WS_CONNECTING \<or> readyState (sockets this1 h) = WS_OPEN" for h
    proof (cases "h = k")
      case True
      then show False using that(2) by (auto simp: this1_def ws_close_def split: if_splits)
    next
      case False
      then have "sockets this1 h = sockets this h" by (simp add: this1_def)
      then have "ws this = Some h" using that bff_inv_live [OF assms] by simp
      then show False using Some False by simp
    qed
    have "bff_connectWS this =
        this1\<lparr>ws := Some (nextSocket this1),
              sockets := (sockets this1)
                (nextSocket this1 := \<lparr>readyState = WS_CONNECTING, onmessage = True, onerror = True,
                       onclose = True, sent = []\<rparr>),
              nextSocket := Suc (nextSocket this1)\<rparr>"
      using Some False by (simp add: bff_connectWS_def Let_def this1_def)
    then show ?thesis using inv_new_socket [of this1 "nextSocket this1"] dead by auto
  qed
qed

lemma inv_connect_begin: "bff_inv this \<Longrightarrow> bff_inv (bff_connect_begin this)"
  using inv_connectWS [of this] bff_inv_cong [of "bff_connect_begin this" "bff_connectWS this"]
  by (simp add: bff_connect_begin_def)

lemma inv_connect_resume: "bff_inv this \<Longrightarrow> bff_inv (bff_connect_resume this)"
  using bff_inv_cong [of "bff_connect_resume this" this]
  by (simp add: bff_connect_resume_def logged_def)

lemma inv_readyState_update:
  assumes "bff_inv this"
    and "readyState (sockets this h) = WS_CONNECTING \<or> readyState (sockets this h) = WS_OPEN"
    and "r = WS_OPEN \<or> r = WS_CLOSING"
  shows "bff_inv (this\<lparr>sockets := (sockets this)(h := (sockets this h)\<lparr>readyState := r\<rparr>)\<rparr>)"
proof (rule bff_invI)
  fix k
  assume "ws (this\<lparr>sockets := (sockets this)(h := (sockets this h)\<lparr>readyState := r\<rparr>)\<rparr>) = Some k"
  then have "ws this = Some k" by simp
  from bff_inv_current [OF assms(1) this] assms(3)
  show "onmessage (sockets (this\<lparr>sockets := (sockets this)(h := (sockets this h)\<lparr>readyState := r\<rparr>)\<rparr>) k)
      \<and> onerror (sockets (this\<lparr>sockets := (sockets this)(h := (sockets this h)\<lparr>readyState := r\<rparr>)\<rparr>) k)
      \<and> onclose (sockets (this\<lparr>sockets := (sockets this)(h := (sockets this h)\<lparr>readyState := r\<rparr>)\<rparr>) k)
      \<and> readyState (sockets (this\<lparr>sockets := (sockets this)(h := (sockets this h)\<lparr>readyState := r\<rparr>)\<rparr>) k)
          \<noteq> WS_CLOSED"
    by (cases "k = h") auto
next
  fix k
  assume m: "onmessage (sockets (this\<lparr>sockets := (sockets this)(h := (sockets this h)\<lparr>readyState := r\<rparr>)\<rparr>) k)"
    and r: "readyState (sockets (this\<lparr>sockets := (sockets this)(h := (sockets this h)\<lparr>readyState := r\<rparr>)\<rparr>) k)
              = WS_CONNECTING
          \<or> readyState (sockets (this\<lparr>sockets := (sockets this)(h := (sockets this h)\<lparr>readyState := r\<rparr>)\<rparr>) k)
              = WS_OPEN"
  have "onmessage (sockets this k)
      \<and> (readyState (sockets this k) = WS_CONNECTING \<or> readyState (sockets this k) = WS_OPEN)"
    using m r assms(2) by (cases "k = h") auto
  then have "ws this = Some k" using bff_inv_live [OF assms(1)] by blast
  then show "ws (this\<lparr>sockets := (sockets this)(h := (sockets this h)\<lparr>readyState := r\<rparr>)\<rparr>) = Some k"
    by simp
qed

lemma inv_socketOpened: "bff_inv this \<Longrightarrow> bff_inv (socketOpened h this)"
  using inv_readyState_update [of this h WS_OPEN] by (simp add: socketOpened_def)

lemma inv_socketClosing: "bff_inv this \<Longrightarrow> bff_inv (socketClosing h this)"
  using inv_readyState_update [of this h WS_CLOSING] by (simp add: socketClosing_def)

lemma inv_socketClosed:
  assumes "bff_inv this"
  shows "bff_inv (if onclose (sockets this h) then bff_onclose (socketClosed h this)
              else socketClosed h this)"
proof -
  define c where "c = socketClosed h this"
  have c: "ws c = ws this" "sockets c = (sockets this)(h := (sockets this h)\<lparr>readyState := WS_CLOSED\<rparr>)"
    by (simp_all add: c_def socketClosed_def)
  have live: "ws c = Some k" if "onmessage (sockets c k)"
    "readyState (sockets c k) = WS_CONNECTING \<or> readyState (sockets c k) = WS_OPEN" for k
  proof -
    have "k \<noteq> h" using that(2) c by auto
    then have "sockets c k = sockets this k" using c by simp
    then show ?thesis using that bff_inv_live [OF assms] c by simp
  qed
  show ?thesis
  proof (cases "onclose (sockets this h)")
    case False
    have "ws this \<noteq> Some h" using False bff_inv_current [OF assms] by blast
    have "bff_inv c"
    proof (rule bff_invI)
      fix k
      assume "ws c = Some k"
      then have "ws this = Some k" "k \<noteq> h" using c \<open>ws this \<noteq> Some h\<close> by auto
      then show "onmessage (sockets c k) \<and> onerror (sockets c k) \<and> onclose (sockets c k)
          \<and> readyState (sockets c k) \<noteq> WS_CLOSED"
        using bff_inv_current [OF assms] c by simp
    next
      fix k
      assume "onmessage (sockets c k)"
        "readyState (sockets c k) = WS_CONNECTING \<or> readyState (sockets c k) = WS_OPEN"
      then show "ws c = Some k" by (rule live)
    qed
    then show ?thesis using False by (simp add: c_def)
  next
    case True
    have "bff_inv (bff_disconnect c)"
    proof (rule bff_invI)
      fix k
      assume "ws (bff_disconnect c) = Some k"
      then show "onmessage (sockets (bff_disconnect c) k) \<and> onerror (sockets (bff_disconnect c) k)
          \<and> onclose (sockets (bff_disconnect c) k)
          \<and> readyState (sockets (bff_disconnect c) k) \<noteq> WS_CLOSED"
        by (simp add: ws_bff_disconnect)
    next
      fix k
      assume m: "onmessage (sockets (bff_disconnect c) k)"
        and r: "readyState (sockets (bff_disconnect c) k) = WS_CONNECTING
              \<or> readyState (sockets (bff_disconnect c) k) = WS_OPEN"
      have "ws c \<noteq> Some k"
        using m by (auto simp: sockets_bff_disconnect ws_close_def)
      moreover have "sockets (bff_disconnect c) k = sockets c k"
        using \<open>ws c \<noteq> Some k\<close> by (cases "ws c") (auto simp: sockets_bff_disconnect)
      ultimately have False using m r live [of k] by simp
      then show "ws (bff_disconnect c) = Some k" ..
    qed
    then show ?thesis using True by (simp add: c_def bff_onclose_def)
  qed
qed

lemma inv_sendHeartBeat:
  assumes "bff_inv this" "sendHeartBeat P config n1 n2 this = Inr this'"
  shows "bff_inv this'"
proof (cases "selfPosition config ()")
  case None
  then show ?thesis using assms by (simp add: sendHeartBeat_def)
next
  case (Some p)
  obtain x y z where "p = (x, y, z)" by (cases p) auto
  then obtain m where "bff_send m this = Inr this'"
    using assms(2) Some by (auto simp: sendHeartBeat_def Let_def)
  then show ?thesis using inv_send [OF assms(1)] by simp
qed

lemma inv_onWsMessage: "bff_inv this \<Longrightarrow> bff_inv (bff_onWsMessage P config data this)"
proof -
  assume i: "bff_inv this"
  have upd: "bff_inv (this\<lparr>onTopicMessageObservable := a\<rparr>)"
    "bff_inv (this\<lparr>onIslandChangeObservable := b\<rparr>)" for a b
    using i bff_inv_cong [of "this\<lparr>onTopicMessageObservable := a\<rparr>" this]
      bff_inv_cong [of "this\<lparr>onIslandChangeObservable := b\<rparr>" this]
    by simp_all
  have op: "bff_inv (case bff_send m this1 of Inl e \<Rightarrow> this1 | Inr this2 \<Rightarrow> this2)"
    if "bff_inv this1" for m this1
    using that inv_send [of this1 m] by (cases "bff_send m this1") auto
  show ?thesis
  proof (cases "headerType P data")
    case None
    then show ?thesis using i by (simp add: bff_onWsMessage_def inv_logged)
  next
    case (Some t)
    then show ?thesis
      using i upd op [OF inv_logged [OF i]]
      by (cases t)
        (auto simp: bff_onWsMessage_def Let_def inv_logged inv_disconnect split: option.splits)
  qed
qed

lemma inv_step: "bff_inv this \<Longrightarrow> bff_inv (bff_step P config e this)"
proof (cases e)
  case (BffSend data)
  assume "bff_inv this"
  then show ?thesis using BffSend inv_send [of this data]
    by (cases "bff_send data this") auto
next
  case (BffHeartBeat t pos n1 n2)
  assume "bff_inv this"
  then show ?thesis using BffHeartBeat
      inv_sendHeartBeat [of this P "config\<lparr>selfPosition := (\<lambda>u. pos)\<rparr>" n1 n2]
    by (cases "sendHeartBeat P (config\<lparr>selfPosition := (\<lambda>u. pos)\<rparr>) n1 n2 this") auto
next
  case (BffSocketClosed h)
  assume "bff_inv this"
  then show ?thesis using BffSocketClosed inv_socketClosed [of this h] by simp
qed (simp_all add: inv_connect_begin inv_connect_resume inv_disconnect inv_socketOpened
       inv_socketClosing inv_onWsMessage bff_onerror_def inv_logged)

lemma inv_run: "bff_inv this \<Longrightarrow> bff_inv (bff_run P config es this)"
  by (induction es arbitrary: this) (auto simp: inv_step)


section \<open>The BFF transport: teardown and sending when closed\<close>

lemma bff_disconnect_idem: "bff_disconnect (bff_disconnect this) = bff_disconnect this"
  by (auto simp: bff_disconnect_def Let_def split: option.splits)

lemma bff_disconnect_teardown:
  assumes "ws this = Some h"
  shows "ws (bff_disconnect this) = None"
    "\<not> onmessage (sockets (bff_disconnect this) h)"
    "\<not> onerror (sockets (bff_disconnect this) h)"
    "\<not> onclose (sockets (bff_disconnect this) h)"
    "readyState (sockets (bff_disconnect this) h)
       = (if readyState (sockets this h) = WS_CLOSED then WS_CLOSED else WS_CLOSING)"
    "\<forall>t. heartBeatInterval this = Some t \<longrightarrow> t \<notin> timers (bff_disconnect this)"
    "onDisconnectObservable (bff_disconnect this) = Suc (onDisconnectObservable this)"
  using assms by (auto simp: bff_disconnect_def Let_def ws_close_def split: option.splits)

text \<open>
  What the teardown does do, in every run from a new connection: a VALIDATION_FAILURE
  frame delivered on an open socket drops the socket reference, detaches the handlers,
  closes the socket, stops the one timer whose handle the transport holds and notifies
  once; \<open>disconnect\<close> after \<open>disconnect\<close> is the same as one \<open>disconnect\<close>.
\<close>

lemma bff_validation_failure_teardown:
  assumes "this = bff_run P config es newBFFConnection"
    and "readyState (sockets this h) = WS_OPEN" and "onmessage (sockets this h)"
    and "headerType P data = Some VALIDATION_FAILURE"
    and "this' = bff_step P config (BffSocketMessage h data) this"
  shows "ws this' = None
       \<and> \<not> onmessage (sockets this' h) \<and> \<not> onerror (sockets this' h) \<and> \<not> onclose (sockets this' h)
       \<and> readyState (sockets this' h) = WS_CLOSING
       \<and> (\<forall>t. heartBeatInterval this = Some t \<longrightarrow> t \<notin> timers this')
       \<and> onDisconnectObservable this' = Suc (onDisconnectObservable this)
       \<and> bff_disconnect this' = this'
       \<and> onDisconnectObservable (bff_disconnect this') = Suc (onDisconnectObservable this)
       \<and> bff_disconnect (bff_disconnect that) = bff_disconnect that"
proof -
  have i: "bff_inv this" using assms(1) inv_run [OF inv_new] by simp
  then have cur: "ws this = Some h" using assms(2,3) bff_inv_live by blast
  define l where "l = logged (Log ''validation failure, disconnecting bff'') this"
  have l: "ws l = Some h" "sockets l = sockets this" "heartBeatInterval l = heartBeatInterval this"
    "onDisconnectObservable l = onDisconnectObservable this"
    using cur by (simp_all add: l_def logged_def)
  have eq: "this' = bff_disconnect l"
    using assms(2,3,4,5) by (simp add: bff_onWsMessage_def l_def)
  have idem: "bff_disconnect this' = this'" using eq bff_disconnect_idem by simp
  show ?thesis
    using bff_disconnect_teardown [OF l(1)] l(2,3,4) assms(2) idem
    unfolding eq [symmetric] by (simp add: bff_disconnect_idem)
qed

text \<open>
  Claim C4. The claim: receiving VALIDATION_FAILURE tears the transport down in full,
  the heartbeat timer cancelled, the handlers cleared and the socket closed, with exactly
  one disconnect notification, and \<open>disconnect\<close> on a transport that is already closed does
  nothing more. The code starts a heartbeat timer in every \<open>connect\<close> and keeps only the
  latest handle, without a look at the timer it held or at the socket. After \<open>connect\<close>,
  the opening of the socket and a second \<open>connect\<close>, a VALIDATION_FAILURE frame tears the
  socket down and notifies once, but stops the second timer only: the first heartbeat
  timer is still running on the closed transport. And when \<open>disconnect\<close> runs before a
  suspended \<open>connect\<close> resumes, the timer is started on the closed transport, where a
  further \<open>disconnect\<close> does act: it stops that timer.
\<close>

theorem bff_connect_leaves_heartbeat_timer_running:
  "readyState (sockets (bff_run demoBff demoConfig
      [BffConnect, BffConnectResumed, BffSocketOpened 0, BffConnect, BffConnectResumed]
      newBFFConnection) 0) = WS_OPEN
   \<and> onmessage (sockets (bff_run demoBff demoConfig
      [BffConnect, BffConnectResumed, BffSocketOpened 0, BffConnect, BffConnectResumed]
      newBFFConnection) 0)
   \<and> headerType demoBff [6] = Some VALIDATION_FAILURE
   \<and> ws (bff_run demoBff demoConfig
      [BffConnect, BffConnectResumed, BffSocketOpened 0, BffConnect, BffConnectResumed,
       BffSocketMessage 0 [6]] newBFFConnection) = None
   \<and> onDisconnectObservable (bff_run demoBff demoConfig
      [BffConnect, BffConnectResumed, BffSocketOpened 0, BffConnect, BffConnectResumed,
       BffSocketMessage 0 [6]] newBFFConnection) = 1
   \<and> heartBeatInterval (bff_run demoBff demoConfig
      [BffConnect, BffConnectResumed, BffSocketOpened 0, BffConnect, BffConnectResumed,
       BffSocketMessage 0 [6]] newBFFConnection) = Some (TimerHandle 1)
   \<and> timers (bff_run demoBff demoConfig
      [BffConnect, BffConnectResumed, BffSocketOpened 0, BffConnect, BffConnectResumed,
       BffSocketMessage 0 [6]] newBFFConnection) = {TimerHandle 0}
   \<and> ws (bff_run demoBff demoConfig [BffConnect, BffDisconnect, BffConnectResumed]
         newBFFConnection) = None
   \<and> timers (bff_run demoBff demoConfig [BffConnect, BffDisconnect, BffConnectResumed]
         newBFFConnection) = {TimerHandle 0}
   \<and> timers (bff_disconnect (bff_run demoBff demoConfig
         [BffConnect, BffDisconnect, BffConnectResumed] newBFFConnection)) = {}"
  by (simp add: bff_defs Let_def)

text \<open>
  Claim C6. \<open>send\<close> on a transport without socket fails with the error "This transport
  is closed": whenever \<open>ws\<close> is null, so after \<open>disconnect\<close> and on a new connection. In
  every run a socket that has closed is no longer held, so in every state of a run where
  the socket is absent or closed \<open>send\<close> fails with that error, and the failed call
  changes nothing: no socket is handed the data and nothing is tried again.
\<close>

theorem bff_send_on_closed_transport_fails:
  "(ws that = None \<longrightarrow> bff_send data that = Inl (Error ''This transport is closed''))
   \<and> bff_send data (bff_disconnect that) = Inl (Error ''This transport is closed'')
   \<and> bff_send data newBFFConnection = Inl (Error ''This transport is closed'')
   \<and> (this = bff_run P config es newBFFConnection
        \<and> (ws this = None \<or> (\<exists>h. ws this = Some h \<and> readyState (sockets this h) = WS_CLOSED))
      \<longrightarrow> bff_send data this = Inl (Error ''This transport is closed'')
        \<and> bff_step P config (BffSend data) this = this)"
proof -
  have a: "bff_send data that = Inl (Error ''This transport is closed'')" if "ws that = None" for that
    using that by (simp add: bff_send_def)
  have b: "ws (bff_disconnect that) = None"
    by (auto simp: bff_disconnect_def Let_def split: option.splits)
  have c: "ws newBFFConnection = None" by (simp add: newBFFConnection_def)
  have d: "ws this = None"
    if "this = bff_run P config es newBFFConnection"
      "ws this = None \<or> (\<exists>h. ws this = Some h \<and> readyState (sockets this h) = WS_CLOSED)"
  proof -
    have "bff_inv this" using that(1) inv_run [OF inv_new] by simp
    then show ?thesis using that(2) bff_inv_current by blast
  qed
  show ?thesis using a [OF b] a [OF c] a d by auto
qed

theorem bff_send_on_closed_transport_fails_witness:
  "ws (bff_run demoBff demoConfig [BffConnect, BffConnectResumed, BffSocketOpened 0, BffSocketClosed 0]
         newBFFConnection) = None
   \<and> readyState (sockets (bff_run demoBff demoConfig
         [BffConnect, BffConnectResumed, BffSocketOpened 0, BffSocketClosed 0] newBFFConnection) 0)
       = WS_CLOSED
   \<and> bff_send [9] (bff_run demoBff demoConfig
         [BffConnect, BffConnectResumed, BffSocketOpened 0, BffSocketClosed 0] newBFFConnection)
       = Inl (Error ''This transport is closed'')
   \<and> bff_step demoBff demoConfig (BffSend [9]) (bff_run demoBff demoConfig
         [BffConnect, BffConnectResumed, BffSocketOpened 0, BffSocketClosed 0] newBFFConnection)
       = bff_run demoBff demoConfig
         [BffConnect, BffConnectResumed, BffSocketOpened 0, BffSocketClosed 0] newBFFConnection"
proof -
  define s0 where "s0 = bff_run demoBff demoConfig
         [BffConnect, BffConnectResumed, BffSocketOpened 0, BffSocketClosed 0] newBFFConnection"
  have s0: "ws s0 = None" "readyState (sockets s0 0) = WS_CLOSED"
    by (simp_all add: s0_def bff_defs Let_def)
  show ?thesis
    unfolding s0_def [symmetric]
    using s0 s0_def bff_send_on_closed_transport_fails [of s0 "[9]" s0 demoBff demoConfig
        "[BffConnect, BffConnectResumed, BffSocketOpened 0, BffSocketClosed 0]"]
    by simp
qed

end
